theory Spec2Isabelle
  imports Main "HOL-Library.Word"
begin

section \<open>Strings and values of the JavaScript side\<close>

text \<open>
  The repository holds two versions of the same client script:
  \<^verbatim>\<open>src/frontend/script.js\<close> and \<^verbatim>\<open>src/unnamed/part_000\<close>. Both are embedded; a
  function that differs between them takes the version as its first argument.

  A JavaScript string is a sequence of 16-bit code units, and \<^verbatim>\<open>length\<close> and
  \<^verbatim>\<open>slice\<close> count code units.
\<close>

datatype variant = ScriptJs | Part000

type_synonym jschar = "16 word"
type_synonym jsstring = "jschar list"

definition js :: "string \<Rightarrow> jsstring" where
  "js s = map (\<lambda>c. of_nat (of_char c)) s"

text \<open>\<^verbatim>\<open>String.prototype.trim\<close>: strips WhiteSpace and LineTerminator code units
  (ECMAScript) from both ends.\<close>

definition isWhiteSpace :: "jschar \<Rightarrow> bool" where
  "isWhiteSpace c \<longleftrightarrow>
     c = 0x9 \<or> c = 0xA \<or> c = 0xB \<or> c = 0xC \<or> c = 0xD \<or> c = 0x20 \<or> c = 0xA0
     \<or> c = 0x1680 \<or> (0x2000 \<le> c \<and> c \<le> 0x200A) \<or> c = 0x2028 \<or> c = 0x2029
     \<or> c = 0x202F \<or> c = 0x205F \<or> c = 0x3000 \<or> c = 0xFEFF"

definition trim :: "jsstring \<Rightarrow> jsstring" where
  "trim t = rev (dropWhile isWhiteSpace (rev (dropWhile isWhiteSpace t)))"

text \<open>
  The body of an HTTP response as \<^verbatim>\<open>res.json()\<close> sees it: unparseable (the promise
  rejects), the JSON value \<^verbatim>\<open>null\<close>, or an object. The two endpoints answer with an
  object whose fields \<^verbatim>\<open>summary\<close> and \<^verbatim>\<open>answer\<close> are strings when present, so an
  object is the list of its string fields, each name once; \<open>field data name\<close> is
  \<^verbatim>\<open>data.name\<close>, absent when the object has no such field.
\<close>

datatype body = Unparseable | JsonNull | JsonObject "(jsstring \<times> jsstring) list"

definition field :: "(jsstring \<times> jsstring) list \<Rightarrow> jsstring \<Rightarrow> jsstring option" where
  "field data name = map_of data name"

datatype response = NetworkError | Response nat body

text \<open>\<^verbatim>\<open>res.ok\<close>: the status is in the range 200-299.\<close>

definition ok :: "nat \<Rightarrow> bool" where
  "ok status \<longleftrightarrow> 200 \<le> status \<and> status \<le> 299"

text \<open>\<^verbatim>\<open>value || fallback\<close> on an optional string field: \<^verbatim>\<open>undefined\<close> and the empty
  string are falsy.\<close>

definition or_default :: "jsstring option \<Rightarrow> jsstring \<Rightarrow> jsstring" where
  "or_default x fallback =
     (case x of None \<Rightarrow> fallback | Some t \<Rightarrow> if t = [] then fallback else t)"

section \<open>The page\<close>

datatype display = Stylesheet | DisplayNone | DisplayBlock | DisplayFlex

text \<open>What an element holds after \<^verbatim>\<open>el.textContent = t\<close> (one text node) or after
  \<^verbatim>\<open>el.innerHTML = h\<close> (the parsed markup \<open>h\<close>).\<close>

datatype content = TextContent jsstring | InnerHTML jsstring

text \<open>
  The children of \<^verbatim>\<open>#chatMessages\<close>. The constructor records which function built the
  child and the argument is the \<^verbatim>\<open>innerHTML\<close> it was given; the bubble of an assistant
  message is written to later through the reference \<^verbatim>\<open>createAIBubble\<close> returns, so
  the child holds the bubble's index in the store \<open>bubbles\<close>. The element of class
  \<^verbatim>\<open>welcome-message\<close> comes from the HTML page, which is not part of the sources; it is
  taken to be a child of \<^verbatim>\<open>#chatMessages\<close>.
\<close>

datatype node = WelcomeNode jsstring | UserNode jsstring | SystemNode jsstring | AiNode nat

text \<open>
  Pending callbacks, one constructor per closure of the sources, with the closure's
  variables as arguments:
  \<^item> \<open>UpdateProgress progress seconds\<close>: \<^verbatim>\<open>updateProgress\<close> of \<^verbatim>\<open>simulateSideLoading\<close>;
  \<^item> \<open>Update progress file\<close>: \<^verbatim>\<open>update\<close> of \<^verbatim>\<open>simulateProgress\<close>; its \<^verbatim>\<open>resolve\<close> resumes the
    change handler that awaits it, which holds \<open>file\<close>;
  \<^item> \<open>ShowSuccess data\<close> and \<open>ShowResults data\<close>: the two nested \<^verbatim>\<open>setTimeout\<close> callbacks
    of the change handler of part_000;
  \<^item> \<open>TypeTick container text i\<close>: the \<^verbatim>\<open>setInterval\<close> callback of \<^verbatim>\<open>typeText\<close>;
  \<^item> \<open>SessionTick\<close>: \<^verbatim>\<open>updateSessionTime\<close> on its one-minute interval.
\<close>

datatype task =
    UpdateProgress nat nat
  | Update nat jsstring
  | ShowSuccess body
  | ShowResults body
  | TypeTick nat jsstring nat
  | SessionTick

text \<open>Requests in flight, with what the awaiting handler holds: the file of an upload,
  the bubble and the question of an ask.\<close>

datatype request = UploadRequest jsstring | AskRequest nat jsstring

text \<open>
  The module's variables, the properties of the elements the script reads or writes,
  and the event loop (clock in milliseconds, timers in the order they were set, requests
  in flight). \<open>progressPercent\<close> is the percentage shown: \<^verbatim>\<open>progressFill.style.width\<close> in
  script.js, \<^verbatim>\<open>progressPercent.textContent\<close> in part_000. \<open>fileTime\<close> is the number of
  seconds that \<^verbatim>\<open>fileTimeElement\<close> shows as \<^verbatim>\<open>m:ss\<close>. \<open>alerts\<close> and \<open>progressTrace\<close> record
  the calls of \<^verbatim>\<open>alert\<close> and the successive values written to the progress element.
  The session clock (\<^verbatim>\<open>sessionTime\<close>, read from \<^verbatim>\<open>Date\<close>), the theme, scrolling and
  \<^verbatim>\<open>console.error\<close> are left out.
\<close>

record state =
  window_marked :: "(jsstring \<Rightarrow> jsstring) option"
  isTyping :: bool
  currentFileName :: jsstring
  fileInput_files :: "jsstring list"
  uploadArea_display :: display
  processingOverlay_display :: display
  successMessage_display :: display
  resultsContainer_display :: display
  progressPercent :: nat
  fileName_text :: jsstring
  fileTime :: nat
  summaryContent :: content
  chatInput_value :: jsstring
  chatInput_disabled :: bool
  sendButton_disabled :: bool
  chatMessages :: "node list"
  bubbles :: "content list"
  alerts :: "jsstring list"
  progressTrace :: "nat list"
  now :: nat
  timers :: "(nat \<times> task) list"
  requests :: "request list"

section \<open>Helpers: escapeHtml and renderMarkdown\<close>

text \<open>
  \<^verbatim>\<open>escapeHtml\<close> assigns the text to \<^verbatim>\<open>textContent\<close> of a fresh element and reads
  \<^verbatim>\<open>innerHTML\<close> back. Reading \<^verbatim>\<open>innerHTML\<close> serialises a text node by the HTML
  standard's escaping of a string: \<^verbatim>\<open>&\<close>, no-break space, \<^verbatim>\<open><\<close> and \<^verbatim>\<open>>\<close> are replaced.
\<close>

definition escapeChar :: "jschar \<Rightarrow> jsstring" where
  "escapeChar c =
     (if c = 0x26 then js ''&amp;''
      else if c = 0xA0 then js ''&nbsp;''
      else if c = 0x3C then js ''&lt;''
      else if c = 0x3E then js ''&gt;''
      else [c])"

fun innerHTML :: "content \<Rightarrow> jsstring" where
  "innerHTML (TextContent t) = concat (map escapeChar t)"
| "innerHTML (InnerHTML h) = h"

definition escapeHtml :: "jsstring \<Rightarrow> jsstring" where
  "escapeHtml text = innerHTML (TextContent text)"

text \<open>\<^verbatim>\<open>.replace(/\n/g, "<br>")\<close>\<close>

definition replace_newlines :: "jsstring \<Rightarrow> jsstring" where
  "replace_newlines t = concat (map (\<lambda>c. if c = 0xA then js ''<br>'' else [c]) t)"

text \<open>\<^verbatim>\<open>window.marked\<close> is the markdown library when the page loaded it.\<close>

definition renderMarkdown :: "state \<Rightarrow> jsstring \<Rightarrow> jsstring" where
  "renderMarkdown s text =
     (case window_marked s of
        Some parse \<Rightarrow> parse text
      | None \<Rightarrow> replace_newlines (escapeHtml text))"

section \<open>Chat UI functions\<close>

definition addUserMessage :: "jsstring \<Rightarrow> state \<Rightarrow> state" where
  \<open>addUserMessage text s =
     s\<lparr>chatMessages := chatMessages s @
        [UserNode (js ''<div class="message-bubble">'' @ escapeHtml text @ js ''</div>'')]\<rparr>\<close>

definition createAIBubble :: "state \<Rightarrow> nat \<times> state" where
  "createAIBubble s =
     (length (bubbles s),
      s\<lparr>bubbles := bubbles s @ [InnerHTML []],
        chatMessages := chatMessages s @ [AiNode (length (bubbles s))]\<rparr>)"

definition addSystemMessage :: "jsstring \<Rightarrow> state \<Rightarrow> state" where
  \<open>addSystemMessage text s =
     s\<lparr>chatMessages := chatMessages s @
        [SystemNode
          ([0xA] @ js ''    <div class="ai-avatar"><i class="fas fa-info-circle"></i></div>''
           @ [0xA] @ js ''    <div class="message-bubble">'' @ escapeHtml text @ js ''</div>''
           @ [0xA] @ js ''  '')]\<rparr>\<close>

section \<open>Timers, requests and the progress element\<close>

definition setTimeout :: "task \<Rightarrow> nat \<Rightarrow> state \<Rightarrow> state" where
  "setTimeout callback delay s = s\<lparr>timers := timers s @ [(now s + delay, callback)]\<rparr>"

text \<open>\<^verbatim>\<open>setInterval\<close>: the first call comes one period from now; \<open>run_task\<close> sets the
  callback again after each call that does not clear it.\<close>

definition setInterval :: "task \<Rightarrow> nat \<Rightarrow> state \<Rightarrow> state" where
  "setInterval callback period s = s\<lparr>timers := timers s @ [(now s + period, callback)]\<rparr>"

definition fetch :: "request \<Rightarrow> state \<Rightarrow> state" where
  "fetch r s = s\<lparr>requests := requests s @ [r]\<rparr>"

definition setProgress :: "nat \<Rightarrow> state \<Rightarrow> state" where
  "setProgress p s = s\<lparr>progressPercent := p, progressTrace := progressTrace s @ [p]\<rparr>"

section \<open>File upload\<close>

definition resetUploadUI :: "variant \<Rightarrow> state \<Rightarrow> state" where
  "resetUploadUI v s =
     (case v of
        ScriptJs \<Rightarrow>
          setProgress 0
            (s\<lparr>uploadArea_display := DisplayBlock,
               processingOverlay_display := DisplayNone,
               resultsContainer_display := DisplayNone\<rparr>)
      | Part000 \<Rightarrow>
          (setProgress 10
            (s\<lparr>uploadArea_display := DisplayBlock,
               processingOverlay_display := DisplayNone,
               successMessage_display := DisplayNone,
               resultsContainer_display := DisplayNone\<rparr>))
          \<lparr>fileInput_files := []\<rparr>)"

definition simulateSideLoading :: "state \<Rightarrow> state" where
  "simulateSideLoading s = setTimeout (UpdateProgress 10 5) 500 s"

definition simulateProgress :: "jsstring \<Rightarrow> state \<Rightarrow> state" where
  "simulateProgress file s = setTimeout (Update 80 file) 1000 s"

text \<open>The \<^verbatim>\<open>catch\<close> block of the change handler.\<close>

definition upload_catch :: "variant \<Rightarrow> state \<Rightarrow> state" where
  "upload_catch v s =
     resetUploadUI v (s\<lparr>alerts := alerts s @ [js ''Upload failed. Please try again.'']\<rparr>)"

text \<open>The change handler of \<^verbatim>\<open>fileInput\<close>, up to its first \<^verbatim>\<open>await\<close>. In part_000
  the request is sent only when \<^verbatim>\<open>simulateProgress\<close> resolves (see \<open>run_task\<close>).\<close>

definition fileInput_change :: "variant \<Rightarrow> state \<Rightarrow> state" where
  "fileInput_change v s =
     (case fileInput_files s of
        [] \<Rightarrow> s
      | file # _ \<Rightarrow>
          (case v of
             ScriptJs \<Rightarrow>
               fetch (UploadRequest file)
                 (setProgress 30
                   (s\<lparr>uploadArea_display := DisplayNone,
                      processingOverlay_display := DisplayFlex\<rparr>))
           | Part000 \<Rightarrow>
               simulateProgress file
                 (simulateSideLoading
                   (s\<lparr>currentFileName := file,
                      fileName_text := file,
                      fileTime := 0,
                      uploadArea_display := DisplayNone,
                      processingOverlay_display := DisplayFlex\<rparr>))))"

definition uploadedMessage :: "variant \<Rightarrow> jsstring" where
  "uploadedMessage v =
     (case v of
        ScriptJs \<Rightarrow> [0xD83D, 0xDCC4] @ js '' Document uploaded successfully''
      | Part000 \<Rightarrow> [0xD83D, 0xDCC4] @ js '' Document uploaded and analyzed successfully'')"

definition summaryDefault :: "variant \<Rightarrow> jsstring" where
  "summaryDefault v =
     (case v of ScriptJs \<Rightarrow> [] | Part000 \<Rightarrow> js ''Document processed successfully!'')"

text \<open>The statements both versions run once the upload has succeeded: render the
  summary, enable the chat, add the system message.\<close>

definition showSummary :: "variant \<Rightarrow> (jsstring \<times> jsstring) list \<Rightarrow> state \<Rightarrow> state" where
  "showSummary v data s =
     addSystemMessage (uploadedMessage v)
       (s\<lparr>summaryContent :=
            InnerHTML (renderMarkdown s (or_default (field data (js ''summary'')) (summaryDefault v))),
          chatInput_disabled := False,
          sendButton_disabled := False\<rparr>)"

text \<open>
  The change handler from the moment the request settles. script.js reads the body,
  writes 100, then tests \<^verbatim>\<open>res.ok\<close>; reading \<^verbatim>\<open>data.summary\<close> of \<^verbatim>\<open>null\<close> throws into the
  \<^verbatim>\<open>catch\<close> block. part_000 tests \<^verbatim>\<open>res.ok\<close>, reads the body, writes 100 and sets the first
  of its two timers.
\<close>

definition fileInput_change_settled :: "variant \<Rightarrow> response \<Rightarrow> state \<Rightarrow> state" where
  "fileInput_change_settled v r s =
     (case v of
        ScriptJs \<Rightarrow>
          (case r of
             NetworkError \<Rightarrow> upload_catch v s
           | Response status body \<Rightarrow>
               (case body of
                  Unparseable \<Rightarrow> upload_catch v s
                | JsonNull \<Rightarrow>
                    (if \<not> ok status then upload_catch v (setProgress 100 s)
                     else upload_catch v
                            ((setProgress 100 s)
                               \<lparr>processingOverlay_display := DisplayNone,
                                resultsContainer_display := DisplayBlock\<rparr>))
                | JsonObject data \<Rightarrow>
                    (if \<not> ok status then upload_catch v (setProgress 100 s)
                     else showSummary v data
                            ((setProgress 100 s)
                               \<lparr>processingOverlay_display := DisplayNone,
                                resultsContainer_display := DisplayBlock\<rparr>))))
      | Part000 \<Rightarrow>
          (case r of
             NetworkError \<Rightarrow> upload_catch v s
           | Response status body \<Rightarrow>
               (if \<not> ok status then upload_catch v s
                else (case body of
                        Unparseable \<Rightarrow> upload_catch v s
                      | JsonNull \<Rightarrow> setTimeout (ShowSuccess body) 1000 (setProgress 100 s)
                      | JsonObject data \<Rightarrow>
                          setTimeout (ShowSuccess body) 1000 (setProgress 100 s)))))"

section \<open>Typing effect\<close>

definition typingInterval :: "variant \<Rightarrow> nat" where
  "typingInterval v = (case v of ScriptJs \<Rightarrow> 15 | Part000 \<Rightarrow> 20)"

definition typeText :: "variant \<Rightarrow> nat \<Rightarrow> jsstring \<Rightarrow> state \<Rightarrow> state" where
  "typeText v container text s =
     setInterval (TypeTick container text 0) (typingInterval v)
       (s\<lparr>bubbles := (bubbles s)[container := InnerHTML []]\<rparr>)"

section \<open>Timer callbacks\<close>

text \<open>
  \<open>run_task v due callback s\<close> runs one callback that was due at \<open>due\<close>. An interval that
  has not been cleared is set again one period after \<open>due\<close>. In \<open>ShowResults\<close>, reading
  \<^verbatim>\<open>data.summary\<close> of \<^verbatim>\<open>null\<close> throws and ends the callback.
\<close>

fun run_task :: "variant \<Rightarrow> nat \<Rightarrow> task \<Rightarrow> state \<Rightarrow> state" where
  "run_task v due (UpdateProgress progress seconds) s =
     (let progress1 = (if progress + 1 > 100 then 100 else progress + 1);
          s1 = setProgress progress1 s;
          seconds1 = (if progress1 mod 5 = 0 then seconds + 1 else seconds);
          s2 = (if progress1 mod 5 = 0 then s1\<lparr>fileTime := seconds1\<rparr> else s1)
      in if progress1 < 80 then setTimeout (UpdateProgress progress1 seconds1) 80 s2 else s2)"
| "run_task v due (Update progress file) s =
     (if progress + 1 > 100 then fetch (UploadRequest file) (setProgress 100 s)
      else setTimeout (Update (progress + 1) file) 60 (setProgress (progress + 1) s))"
| "run_task v due (ShowSuccess data) s =
     setTimeout (ShowResults data) 2000
       (s\<lparr>processingOverlay_display := DisplayNone,
          successMessage_display := DisplayFlex\<rparr>)"
| "run_task v due (ShowResults data) s =
     (let s1 = s\<lparr>successMessage_display := DisplayNone,
                 resultsContainer_display := DisplayBlock\<rparr>
      in case data of
           JsonObject d \<Rightarrow> showSummary v d s1
         | JsonNull \<Rightarrow> s1
         | Unparseable \<Rightarrow> s1)"
| "run_task v due (TypeTick container text i) s =
     (let s1 = s\<lparr>bubbles := (bubbles s)[container := TextContent (take i text)]\<rparr>
      in if i + 1 > length text
         then s1\<lparr>bubbles := (bubbles s1)[container := InnerHTML (renderMarkdown s1 text)],
                 isTyping := False,
                 sendButton_disabled := False\<rparr>
         else s1\<lparr>timers := timers s1 @ [(due + typingInterval v, TypeTick container text (i + 1))]\<rparr>)"
| "run_task v due SessionTick s =
     s\<lparr>timers := timers s @ [(due + 60000, SessionTick)]\<rparr>"

section \<open>Chat\<close>

definition askDefault :: "variant \<Rightarrow> jsstring" where
  "askDefault v =
     (case v of
        ScriptJs \<Rightarrow> js ''No response.''
      | Part000 \<Rightarrow> js ''I couldn'' @ [0x27] @ js ''t find an answer to that question.'')"

definition responses :: "jsstring list" where
  "responses =
     [js ''Based on the document, I can see this is a forensic report detailing evidence from a crime scene. The key findings include DNA evidence from multiple individuals and ballistic analysis.'',
      js ''The document shows that the crime scene had signs of forced entry. Security camera footage from nearby locations is being analyzed as part of the investigation.'',
      js ''From my analysis, I can tell that three different sets of fingerprints were found at the scene. The time of death is estimated to be between 10 PM and 1 AM based on forensic evidence.'',
      js ''The report indicates that no robbery occurred - valuables were left undisturbed. This suggests the incident may have been targeted rather than random.'']"

definition sendMessage :: "variant \<Rightarrow> state \<Rightarrow> state" where
  "sendMessage v s =
     (let question = trim (chatInput_value s)
      in if question = [] \<or> isTyping s then s
         else let s1 = addUserMessage question s;
                  s2 = s1\<lparr>chatInput_value := [], isTyping := True, sendButton_disabled := True\<rparr>;
                  (aiBubble, s3) = createAIBubble s2
              in fetch (AskRequest aiBubble question) s3)"

text \<open>
  The \<^verbatim>\<open>catch\<close> block of \<^verbatim>\<open>sendMessage\<close>. In part_000 the index is
  \<^verbatim>\<open>Math.floor(Math.random() * responses.length)\<close>, some index below the length; the
  draw \<open>rnd\<close> comes from the environment and is reduced modulo the length.
\<close>

definition sendMessage_catch :: "variant \<Rightarrow> nat \<Rightarrow> nat \<Rightarrow> state \<Rightarrow> state" where
  "sendMessage_catch v aiBubble rnd s =
     (case v of
        ScriptJs \<Rightarrow> typeText v aiBubble ([0x274C] @ js '' Error getting response'') s
      | Part000 \<Rightarrow> typeText v aiBubble (responses ! (rnd mod length responses)) s)"

text \<open>\<^verbatim>\<open>sendMessage\<close> from the moment the request settles. Only part_000 tests
  \<^verbatim>\<open>res.ok\<close>; reading \<^verbatim>\<open>data.answer\<close> of \<^verbatim>\<open>null\<close> throws into the \<^verbatim>\<open>catch\<close> block.\<close>

definition sendMessage_settled :: "variant \<Rightarrow> nat \<Rightarrow> response \<Rightarrow> nat \<Rightarrow> state \<Rightarrow> state" where
  "sendMessage_settled v aiBubble r rnd s =
     (case r of
        NetworkError \<Rightarrow> sendMessage_catch v aiBubble rnd s
      | Response status body \<Rightarrow>
          (if v = Part000 \<and> \<not> ok status then sendMessage_catch v aiBubble rnd s
           else (case body of
                   Unparseable \<Rightarrow> sendMessage_catch v aiBubble rnd s
                 | JsonNull \<Rightarrow> sendMessage_catch v aiBubble rnd s
                 | JsonObject data \<Rightarrow>
                     typeText v aiBubble (or_default (field data (js ''answer'')) (askDefault v)) s)))"

definition uploadFirstMessage :: "variant \<Rightarrow> jsstring" where
  "uploadFirstMessage v =
     (case v of
        ScriptJs \<Rightarrow> [0x26A0, 0xFE0F] @ js '' Please upload a document first''
      | Part000 \<Rightarrow> [0x26A0, 0xFE0F] @ js '' Please upload a document first to start chatting'')"

definition sendQuickPrompt :: "variant \<Rightarrow> jsstring \<Rightarrow> state \<Rightarrow> state" where
  "sendQuickPrompt v prompt s =
     (if chatInput_disabled s then addSystemMessage (uploadFirstMessage v) s
      else sendMessage v (s\<lparr>chatInput_value := prompt\<rparr>))"

section \<open>Clear chat and new session\<close>

fun isWelcome :: "node \<Rightarrow> bool" where
  "isWelcome (WelcomeNode h) = True"
| "isWelcome n = False"

definition chatClearedMessage :: "variant \<Rightarrow> jsstring" where
  "chatClearedMessage v =
     (case v of
        ScriptJs \<Rightarrow> [0xD83D, 0xDCAC] @ js '' Chat cleared''
      | Part000 \<Rightarrow>
          [0xD83D, 0xDCAC]
          @ js '' Chat cleared. You can continue asking questions about your document.'')"

definition clearChat :: "variant \<Rightarrow> state \<Rightarrow> state" where
  "clearChat v s =
     (let welcomeMsg = find isWelcome (chatMessages s);
          s1 = s\<lparr>chatMessages := (case welcomeMsg of None \<Rightarrow> [] | Some w \<Rightarrow> [w])\<rparr>;
          s2 = s1\<lparr>chatInput_value := []\<rparr>
      in addSystemMessage (chatClearedMessage v) s2)"

definition startSessionTimer :: "state \<Rightarrow> state" where
  "startSessionTimer s = setInterval SessionTick 60000 s"

text \<open>
  Loading the page: \<open>html\<close> is the document as the HTML page (not part of the sources)
  describes it. The module variables start at their initial values and nothing is
  pending; part_000 also disables the chat and starts the session timer.
\<close>

definition page_load :: "variant \<Rightarrow> state \<Rightarrow> state" where
  "page_load v html =
     (case v of
        ScriptJs \<Rightarrow> html\<lparr>isTyping := False, timers := [], requests := []\<rparr>
      | Part000 \<Rightarrow>
          startSessionTimer
            (html\<lparr>isTyping := False, currentFileName := [],
                  chatInput_disabled := True, sendButton_disabled := True,
                  timers := [], requests := []\<rparr>))"

text \<open>script.js reloads the page (the clock and the two recorded traces go on);
  part_000 resets the page in place.\<close>

definition startNewSession :: "variant \<Rightarrow> state \<Rightarrow> state \<Rightarrow> state" where
  "startNewSession v html s =
     (case v of
        ScriptJs \<Rightarrow>
          page_load v (html\<lparr>now := now s, alerts := alerts s, progressTrace := progressTrace s\<rparr>)
      | Part000 \<Rightarrow>
          (let s1 = s\<lparr>uploadArea_display := DisplayBlock,
                      processingOverlay_display := DisplayNone,
                      successMessage_display := DisplayNone,
                      resultsContainer_display := DisplayNone\<rparr>;
               s2 = s1\<lparr>fileInput_files := []\<rparr>;
               s3 = clearChat v s2;
               s4 = s3\<lparr>chatInput_disabled := True, sendButton_disabled := True\<rparr>;
               s5 = s4\<lparr>summaryContent :=
                         InnerHTML (js ''<p>Your AI-generated summary will appear here...</p>'')\<rparr>;
               s6 = addSystemMessage
                      ([0xD83D, 0xDD04] @ js '' New session started. Upload a document to begin.'')
                      s5
           in startSessionTimer s6))"

definition handleDrop :: "jsstring list \<Rightarrow> state \<Rightarrow> state" where
  "handleDrop files s =
     (if length files > 0 then fileInput_change Part000 (s\<lparr>fileInput_files := files\<rparr>) else s)"

section \<open>The event loop\<close>

text \<open>
  What the user can do. A disabled button receives no click and a disabled input no key
  or text, so these three do nothing then (the browser's rule, not the script's).
  The quick prompts, clear and new session call the script's functions directly.
\<close>

datatype action =
    SelectFiles "jsstring list"
  | DropFiles "jsstring list"
  | TypeInput jsstring
  | ClickSend
  | KeyDown jsstring bool
  | QuickPrompt jsstring
  | ClearChat
  | NewSession

definition keydown :: "variant \<Rightarrow> jsstring \<Rightarrow> bool \<Rightarrow> state \<Rightarrow> state" where
  "keydown v key shiftKey s =
     (case v of
        ScriptJs \<Rightarrow> if key = js ''Enter'' then sendMessage v s else s
      | Part000 \<Rightarrow> if key = js ''Enter'' \<and> \<not> shiftKey then sendMessage v s else s)"

fun act :: "variant \<Rightarrow> state \<Rightarrow> action \<Rightarrow> state \<Rightarrow> state" where
  "act v html (SelectFiles files) s = fileInput_change v (s\<lparr>fileInput_files := files\<rparr>)"
| "act v html (DropFiles files) s = (case v of ScriptJs \<Rightarrow> s | Part000 \<Rightarrow> handleDrop files s)"
| "act v html (TypeInput t) s = (if chatInput_disabled s then s else s\<lparr>chatInput_value := t\<rparr>)"
| "act v html ClickSend s = (if sendButton_disabled s then s else sendMessage v s)"
| "act v html (KeyDown key shiftKey) s =
     (if chatInput_disabled s then s else keydown v key shiftKey s)"
| "act v html (QuickPrompt prompt) s = sendQuickPrompt v prompt s"
| "act v html ClearChat s = clearChat v s"
| "act v html NewSession s = startNewSession v html s"

definition delete_at :: "nat \<Rightarrow> 'a list \<Rightarrow> 'a list" where
  "delete_at k xs = take k xs @ drop (Suc k) xs"

text \<open>Firing the \<open>k\<close>-th pending timer: the clock moves on to its due time.\<close>

definition fire :: "variant \<Rightarrow> nat \<Rightarrow> state \<Rightarrow> state" where
  "fire v k s =
     (if k < length (timers s)
      then run_task v (fst (timers s ! k)) (snd (timers s ! k))
             (s\<lparr>timers := delete_at k (timers s), now := max (now s) (fst (timers s ! k))\<rparr>)
      else s)"

text \<open>The \<open>k\<close>-th request in flight settles with response \<open>r\<close>; \<open>rnd\<close> is the draw of
  \<^verbatim>\<open>Math.random\<close> the handler may use.\<close>

definition settle :: "variant \<Rightarrow> nat \<Rightarrow> response \<Rightarrow> nat \<Rightarrow> state \<Rightarrow> state" where
  "settle v k r rnd s =
     (if k < length (requests s)
      then (case requests s ! k of
              UploadRequest file \<Rightarrow>
                fileInput_change_settled v r (s\<lparr>requests := delete_at k (requests s)\<rparr>)
            | AskRequest aiBubble question \<Rightarrow>
                sendMessage_settled v aiBubble r rnd (s\<lparr>requests := delete_at k (requests s)\<rparr>))
      else s)"

datatype event = Act action | Fire nat | Settle nat response nat

fun step :: "variant \<Rightarrow> state \<Rightarrow> state \<Rightarrow> event \<Rightarrow> state" where
  "step v html s (Act a) = act v html a s"
| "step v html s (Fire k) = fire v k s"
| "step v html s (Settle k r rnd) = settle v k r rnd s"

text \<open>Every state the page can reach is \<open>exec v html es (page_load v html)\<close> for some list
  of events; timers and requests may complete in any order.\<close>

definition exec :: "variant \<Rightarrow> state \<Rightarrow> event list \<Rightarrow> state \<Rightarrow> state" where
  "exec v html es s = foldl (step v html) s es"

text \<open>Timers in due order: the first of the earliest due fires.\<close>

fun earliest :: "(nat \<times> task) list \<Rightarrow> nat option" where
  "earliest [] = None"
| "earliest (t # ts) =
     (case earliest ts of
        None \<Rightarrow> Some 0
      | Some k \<Rightarrow> if fst t \<le> fst (ts ! k) then Some 0 else Some (Suc k))"

definition fire_due :: "variant \<Rightarrow> state \<Rightarrow> state" where
  "fire_due v s = (case earliest (timers s) of None \<Rightarrow> s | Some k \<Rightarrow> fire v k s)"

fun run_timers :: "variant \<Rightarrow> nat \<Rightarrow> state \<Rightarrow> state" where
  "run_timers v 0 s = s"
| "run_timers v (Suc n) s = run_timers v n (fire_due v s)"

section \<open>Notions used to state the properties\<close>

subsection \<open>Text in markup\<close>

text \<open>
  How a browser reads markup that consists of text and the four character references
  \<^verbatim>\<open>escapeHtml\<close> produces: \<open>parseText 0 h\<close> is the text shown, and \<open>None\<close> when \<open>h\<close> opens
  a tag or holds any other use of \<^verbatim>\<open>&\<close>. The first argument counts the code units of a
  reference still to skip.
\<close>

fun parseText :: "nat \<Rightarrow> jsstring \<Rightarrow> jsstring option" where
  "parseText skip [] = Some []"
| "parseText (Suc skip) (c # cs) = parseText skip cs"
| "parseText 0 (c # cs) =
     (if c = 0x3C then None
      else if c = 0x26 then
        (if take 4 cs = js ''amp;'' then map_option ((#) 0x26) (parseText 4 cs)
         else if take 5 cs = js ''nbsp;'' then map_option ((#) 0xA0) (parseText 5 cs)
         else if take 3 cs = js ''lt;'' then map_option ((#) 0x3C) (parseText 3 cs)
         else if take 3 cs = js ''gt;'' then map_option ((#) 0x3E) (parseText 3 cs)
         else None)
      else map_option ((#) c) (parseText 0 cs))"

subsection \<open>The ticks of one reveal\<close>

fun isTickOn :: "nat \<Rightarrow> task \<Rightarrow> bool" where
  "isTickOn c (TypeTick container text i) = (container = c)"
| "isTickOn c t = False"

definition ticksOn :: "nat \<Rightarrow> state \<Rightarrow> task list" where
  "ticksOn c s = filter (isTickOn c) (map snd (timers s))"

fun tickIndex :: "nat \<Rightarrow> (nat \<times> task) list \<Rightarrow> nat option" where
  "tickIndex c [] = None"
| "tickIndex c (t # ts) =
     (if isTickOn c (snd t) then Some 0 else map_option Suc (tickIndex c ts))"

text \<open>The next tick of the reveal on bubble \<open>c\<close>, and \<open>n\<close> of them in a row.\<close>

definition fire_tick :: "variant \<Rightarrow> nat \<Rightarrow> state \<Rightarrow> state" where
  "fire_tick v c s = (case tickIndex c (timers s) of None \<Rightarrow> s | Some k \<Rightarrow> fire v k s)"

fun run_ticks :: "variant \<Rightarrow> nat \<Rightarrow> nat \<Rightarrow> state \<Rightarrow> state" where
  "run_ticks v c 0 s = s"
| "run_ticks v c (Suc n) s = run_ticks v c n (fire_tick v c s)"

subsection \<open>Reveals and asks under way\<close>

fun isTick :: "task \<Rightarrow> bool" where
  "isTick (TypeTick container text i) = True"
| "isTick t = False"

fun isAsk :: "request \<Rightarrow> bool" where
  "isAsk (AskRequest aiBubble question) = True"
| "isAsk r = False"

definition reveals :: "state \<Rightarrow> (nat \<times> task) list" where
  "reveals s = filter (\<lambda>t. isTick (snd t)) (timers s)"

definition asks :: "state \<Rightarrow> request list" where
  "asks s = filter isAsk (requests s)"

text \<open>What the bubble of a reveal shows when its next tick is number \<open>i\<close>: nothing
  before the first tick, then the prefix the previous tick wrote.\<close>

fun shown :: "jsstring \<Rightarrow> nat \<Rightarrow> content" where
  "shown text 0 = InnerHTML []"
| "shown text (Suc i) = TextContent (take i text)"

fun tick_ok :: "content list \<Rightarrow> task \<Rightarrow> bool" where
  "tick_ok bs (TypeTick container text i) =
     (container < length bs \<and> i \<le> length text \<and> bs ! container = shown text i)"
| "tick_ok bs t = True"

fun ask_ok :: "content list \<Rightarrow> request \<Rightarrow> bool" where
  "ask_ok bs (AskRequest aiBubble question) = (aiBubble < length bs)"
| "ask_ok bs r = True"

definition reveal_inv :: "state \<Rightarrow> bool" where
  "reveal_inv s \<longleftrightarrow>
     length (reveals s) + length (asks s) = (if isTyping s then 1 else 0)
     \<and> list_all (\<lambda>t. tick_ok (bubbles s) (snd t)) (timers s)
     \<and> list_all (ask_ok (bubbles s)) (requests s)"

subsection \<open>Outcomes of a request\<close>

text \<open>A request fails on a network error, a status outside 200-299 or a body that is
  no JSON; an upload succeeds on a status in that range with a JSON object.\<close>

fun request_failure :: "response \<Rightarrow> bool" where
  "request_failure NetworkError = True"
| "request_failure (Response status body) = (\<not> ok status \<or> body = Unparseable)"


text \<open>The value \<^verbatim>\<open>resetUploadUI\<close> writes to the progress element.\<close>

definition floorValue :: "variant \<Rightarrow> nat" where
  "floorValue v = (case v of ScriptJs \<Rightarrow> 0 | Part000 \<Rightarrow> 10)"

subsection \<open>A page and sessions on it\<close>

definition example_html :: state where
  "example_html =
     \<lparr>window_marked = None, isTyping = False, currentFileName = [], fileInput_files = [],
      uploadArea_display = Stylesheet, processingOverlay_display = Stylesheet,
      successMessage_display = Stylesheet, resultsContainer_display = Stylesheet,
      progressPercent = 10, fileName_text = [], fileTime = 0,
      summaryContent = InnerHTML [], chatInput_value = [],
      chatInput_disabled = True, sendButton_disabled = True,
      chatMessages = [WelcomeNode (js ''Hello'')], bubbles = [], alerts = [],
      progressTrace = [], now = 0, timers = [], requests = []\<rparr>"

text \<open>script.js: a file is selected, the upload answers with a summary, a question is
  typed and sent. The ask request is in flight.\<close>

definition example_chat :: state where
  "example_chat =
     exec ScriptJs example_html
       [Act (SelectFiles [js ''report.pdf'']),
        Settle 0 (Response 200 (JsonObject [(js ''summary'', js ''Case closed.'')])) 0,
        Act (TypeInput (js ''Who is the suspect?'')),
        Act ClickSend]
       (page_load ScriptJs example_html)"

text \<open>script.js: the answer has arrived and two ticks of its reveal have run.\<close>

definition example_typing :: state where
  "example_typing =
     exec ScriptJs example_html
       [Settle 0 (Response 200 (JsonObject [(js ''answer'', js ''John Doe'')])) 0,
        Fire 0, Fire 0]
       example_chat"

text \<open>
  part_000: a file is selected and the timers run in due order. After 41 of them the
  progress element shows 100 and no request has been sent; the request is sent by the
  43rd; after 47 the clock is at 2500. Then the upload is answered with status 200 and
  body \<open>b\<close> and the 46 timers due in the next four seconds run.
\<close>

definition example_selected :: state where
  "example_selected =
     act Part000 example_html (SelectFiles [js ''report.pdf'']) (page_load Part000 example_html)"

definition example_progress100 :: state where
  "example_progress100 = run_timers Part000 41 example_selected"

definition example_requested :: state where
  "example_requested = run_timers Part000 6 example_progress100"

definition example_uploaded :: "body \<Rightarrow> state" where
  "example_uploaded b =
     run_timers Part000 46 (settle Part000 0 (Response 200 b) 0 example_requested)"

text \<open>part_000: with the chat enabled by that upload, a question is typed and sent. The
  ask request is in flight.\<close>

definition example_asked :: state where
  "example_asked =
     exec Part000 example_html
       [Act (TypeInput (js ''Who is the suspect?'')), Act ClickSend]
       (example_uploaded (JsonObject []))"

section \<open>Evaluation\<close>

lemma run_timers_numeral:
  "run_timers v (numeral n) s = run_timers v (pred_numeral n) (fire_due v s)"
  by (simp add: numeral_eq_Suc)

lemma run_ticks_numeral:
  "run_ticks v c (numeral n) s = run_ticks v c (pred_numeral n) (fire_tick v c s)"
  by (simp add: numeral_eq_Suc)

lemmas strings =
  js_def escapeHtml_def escapeChar_def replace_newlines_def renderMarkdown_def
  or_default_def field_def trim_def isWhiteSpace_def

lemmas handlers =
  setTimeout_def setInterval_def fetch_def setProgress_def resetUploadUI_def simulateSideLoading_def
  simulateProgress_def upload_catch_def fileInput_change_def uploadedMessage_def
  summaryDefault_def showSummary_def fileInput_change_settled_def typingInterval_def
  typeText_def askDefault_def sendMessage_def sendMessage_catch_def sendMessage_settled_def
  uploadFirstMessage_def sendQuickPrompt_def chatClearedMessage_def clearChat_def
  startSessionTimer_def page_load_def startNewSession_def handleDrop_def keydown_def
  addUserMessage_def createAIBubble_def addSystemMessage_def ok_def Let_def

lemmas loop =
  delete_at_def fire_def settle_def exec_def fire_due_def run_timers_numeral
  fire_tick_def run_ticks_numeral

lemmas examples =
  example_html_def example_chat_def example_typing_def example_selected_def

lemma example_chat_state:
  "bubbles example_chat = [InnerHTML []] \<and> timers example_chat = []
   \<and> requests example_chat = [AskRequest 0 (js ''Who is the suspect?'')]
   \<and> isTyping example_chat \<and> sendButton_disabled example_chat
   \<and> \<not> chatInput_disabled example_chat \<and> chatInput_value example_chat = []
   \<and> window_marked example_chat = None \<and> now example_chat = 0"
  by (simp add: examples loop handlers strings)


lemma example_typing_state:
  "bubbles example_typing = [TextContent (js ''J'')]
   \<and> timers example_typing = [(45, TypeTick 0 (js ''John Doe'') 2)]
   \<and> requests example_typing = []
   \<and> isTyping example_typing \<and> sendButton_disabled example_typing
   \<and> \<not> chatInput_disabled example_typing \<and> chatInput_value example_typing = []
   \<and> window_marked example_typing = None"
  by (simp add: example_typing_def example_chat_state loop handlers strings)

lemma example_typing_reachable:
  "example_typing =
     exec ScriptJs example_html
       [Act (SelectFiles [js ''report.pdf'']),
        Settle 0 (Response 200 (JsonObject [(js ''summary'', js ''Case closed.'')])) 0,
        Act (TypeInput (js ''Who is the suspect?'')),
        Act ClickSend,
        Settle 0 (Response 200 (JsonObject [(js ''answer'', js ''John Doe'')])) 0,
        Fire 0, Fire 0]
       (page_load ScriptJs example_html)"
  by (simp add: example_typing_def example_chat_def exec_def)


section \<open>Escaped text is read back as the text\<close>

lemma parseText_numeral [simp]:
  "parseText (numeral n) (c # cs) = parseText (pred_numeral n) cs"
  "parseText 1 (c # cs) = parseText 0 cs"
  by (simp_all add: numeral_eq_Suc)

lemma parseText_skip: "parseText (length pre) (pre @ cs) = parseText 0 cs"
  by (induction pre) simp_all

lemma parseText_escapeChar:
  "parseText 0 (escapeChar c @ cs) = map_option ((#) c) (parseText 0 cs)"
  by (simp add: escapeChar_def js_def)

lemma parseText_escapeHtml: "parseText 0 (escapeHtml t) = Some t"
  by (induction t) (simp_all add: escapeHtml_def parseText_escapeChar)

lemma no_markup_escapeChar: "0x3C \<notin> set (escapeChar c) \<and> 0x3E \<notin> set (escapeChar c)"
  by (simp add: escapeChar_def js_def)

lemma no_markup: "0x3C \<notin> set (escapeHtml t) \<and> 0x3E \<notin> set (escapeHtml t)"
  using no_markup_escapeChar by (auto simp add: escapeHtml_def)

text \<open>
  C10. A user message and a system message are appended with their text escaped: the
  bubble holds \<open>escapeHtml text\<close>, which contains neither \<^verbatim>\<open><\<close> nor \<^verbatim>\<open>>\<close> and which a
  browser reads back as exactly the text, so nothing of it is taken as markup. Neither
  function consults the markdown library.
\<close>

theorem user_and_system_text_is_escaped:
  \<open>chatMessages (addUserMessage text s) =
     chatMessages s @
       [UserNode (js ''<div class="message-bubble">'' @ escapeHtml text @ js ''</div>'')]
   \<and> chatMessages (addSystemMessage text s) =
     chatMessages s @
       [SystemNode
         ([0xA] @ js ''    <div class="ai-avatar"><i class="fas fa-info-circle"></i></div>''
          @ [0xA] @ js ''    <div class="message-bubble">'' @ escapeHtml text @ js ''</div>''
          @ [0xA] @ js ''  '')]
   \<and> parseText 0 (escapeHtml text) = Some text
   \<and> 0x3C \<notin> set (escapeHtml text) \<and> 0x3E \<notin> set (escapeHtml text)
   \<and> addUserMessage text (s\<lparr>window_marked := m\<rparr>) = (addUserMessage text s)\<lparr>window_marked := m\<rparr>
   \<and> addSystemMessage text (s\<lparr>window_marked := m\<rparr>)
       = (addSystemMessage text s)\<lparr>window_marked := m\<rparr>\<close>
  by (simp add: addUserMessage_def addSystemMessage_def parseText_escapeHtml no_markup)

theorem user_and_system_text_is_escaped_witness:
  \<open>chatMessages (addUserMessage (js ''<b>R&D</b>'') example_html) =
     [WelcomeNode (js ''Hello''),
      UserNode (js ''<div class="message-bubble">&lt;b&gt;R&amp;D&lt;/b&gt;</div>'')]
   \<and> parseText 0 (escapeHtml (js ''<b>R&D</b>'')) = Some (js ''<b>R&D</b>'')\<close>
proof -
  have \<open>chatMessages (addUserMessage (js ''<b>R&D</b>'') example_html) =
          chatMessages example_html @
            [UserNode (js ''<div class="message-bubble">'' @ escapeHtml (js ''<b>R&D</b>'')
                       @ js ''</div>'')]
        \<and> parseText 0 (escapeHtml (js ''<b>R&D</b>'')) = Some (js ''<b>R&D</b>'')\<close>
    using user_and_system_text_is_escaped [of "js ''<b>R&D</b>''" example_html] by blast
  moreover have \<open>escapeHtml (js ''<b>R&D</b>'') = js ''&lt;b&gt;R&amp;D&lt;/b&gt;''\<close>
    by (simp add: strings)
  ultimately show ?thesis by (simp add: js_def example_html_def)
qed


section \<open>One reveal, tick by tick\<close>

lemma tickIndex_None: "tickIndex c ts = None \<longleftrightarrow> filter (isTickOn c) (map snd ts) = []"
  by (induction ts) auto

lemma tickIndex_Some:
  "filter (isTickOn c) (map snd ts) = [t] \<Longrightarrow>
   \<exists>k. tickIndex c ts = Some k \<and> k < length ts \<and> snd (ts ! k) = t
       \<and> filter (isTickOn c) (map snd (delete_at k ts)) = []"
proof (induction ts)
  case Nil
  then show ?case by simp
next
  case (Cons a ts)
  show ?case
  proof (cases "isTickOn c (snd a)")
    case True
    with Cons.prems show ?thesis by (simp add: delete_at_def)
  next
    case False
    with Cons.prems have "filter (isTickOn c) (map snd ts) = [t]" by simp
    from Cons.IH [OF this] obtain k where
      "tickIndex c ts = Some k" "k < length ts" "snd (ts ! k) = t"
      "filter (isTickOn c) (map snd (delete_at k ts)) = []" by blast
    with False show ?thesis by (simp add: delete_at_def)
  qed
qed

lemma fire_tick_next:
  assumes "ticksOn c s = [TypeTick c text i]" and "i < length text"
  shows "ticksOn c (fire_tick v c s) = [TypeTick c text (Suc i)]
       \<and> bubbles (fire_tick v c s) = (bubbles s)[c := TextContent (take i text)]
       \<and> isTyping (fire_tick v c s) = isTyping s
       \<and> sendButton_disabled (fire_tick v c s) = sendButton_disabled s
       \<and> window_marked (fire_tick v c s) = window_marked s"
proof -
  from assms(1) obtain k where k: "tickIndex c (timers s) = Some k" "k < length (timers s)"
    "snd (timers s ! k) = TypeTick c text i"
    "filter (isTickOn c) (map snd (delete_at k (timers s))) = []"
    unfolding ticksOn_def using tickIndex_Some by blast
  with assms(2) show ?thesis
    by (simp add: fire_tick_def fire_def ticksOn_def)
qed

lemma fire_tick_last:
  assumes "ticksOn c s = [TypeTick c text (length text)]"
  shows "ticksOn c (fire_tick v c s) = []
       \<and> bubbles (fire_tick v c s) = (bubbles s)[c := InnerHTML (renderMarkdown s text)]
       \<and> \<not> isTyping (fire_tick v c s)
       \<and> \<not> sendButton_disabled (fire_tick v c s)"
proof -
  from assms(1) obtain k where k: "tickIndex c (timers s) = Some k" "k < length (timers s)"
    "snd (timers s ! k) = TypeTick c text (length text)"
    "filter (isTickOn c) (map snd (delete_at k (timers s))) = []"
    unfolding ticksOn_def using tickIndex_Some by blast
  then show ?thesis
    by (simp add: fire_tick_def fire_def ticksOn_def renderMarkdown_def)
qed


lemma run_ticks_prefix:
  assumes "ticksOn c s = [TypeTick c text i]" and "i + n \<le> length text"
    and "c < length (bubbles s)"
  shows "ticksOn c (run_ticks v c n s) = [TypeTick c text (i + n)]
       \<and> isTyping (run_ticks v c n s) = isTyping s
       \<and> sendButton_disabled (run_ticks v c n s) = sendButton_disabled s
       \<and> window_marked (run_ticks v c n s) = window_marked s
       \<and> length (bubbles (run_ticks v c n s)) = length (bubbles s)
       \<and> (0 < n \<longrightarrow> bubbles (run_ticks v c n s) ! c = TextContent (take (i + n - 1) text))"
  using assms
proof (induction n arbitrary: s i)
  case 0
  then show ?case by simp
next
  case (Suc n)
  let ?s1 = "fire_tick v c s"
  from Suc.prems have i: "i < length text" by simp
  note step = fire_tick_next [OF Suc.prems(1) i, of v]
  from step have t1: "ticksOn c ?s1 = [TypeTick c text (Suc i)]" by simp
  from Suc.prems have b1: "Suc i + n \<le> length text" by simp
  from step Suc.prems(3) have c1: "c < length (bubbles ?s1)" by simp
  note ih = Suc.IH [OF t1 b1 c1]
  show ?case
  proof (cases n)
    case 0
    with step Suc.prems(3) show ?thesis by simp
  next
    case (Suc m)
    with ih step show ?thesis by simp
  qed
qed

lemma run_ticks_add: "run_ticks v c (m + n) s = run_ticks v c n (run_ticks v c m s)"
  by (induction m arbitrary: s) simp_all

lemma renderMarkdown_cong:
  "window_marked s' = window_marked s \<Longrightarrow> renderMarkdown s' text = renderMarkdown s text"
  by (simp add: renderMarkdown_def)

lemma run_ticks_complete:
  assumes "ticksOn c s = [TypeTick c text i]" and "i \<le> length text"
    and "c < length (bubbles s)"
  shows "ticksOn c (run_ticks v c (length text - i + 1) s) = []
       \<and> bubbles (run_ticks v c (length text - i + 1) s) ! c = InnerHTML (renderMarkdown s text)
       \<and> \<not> isTyping (run_ticks v c (length text - i + 1) s)
       \<and> \<not> sendButton_disabled (run_ticks v c (length text - i + 1) s)"
proof -
  let ?m = "length text - i"
  let ?s1 = "run_ticks v c ?m s"
  from assms have "i + ?m \<le> length text" by simp
  note pre = run_ticks_prefix [OF assms(1) this assms(3), of v]
  from pre assms(2) have t: "ticksOn c ?s1 = [TypeTick c text (length text)]" by simp
  have "run_ticks v c (?m + Suc 0) s = run_ticks v c (Suc 0) ?s1"
    by (rule run_ticks_add)
  then have run: "run_ticks v c (?m + 1) s = fire_tick v c ?s1"
    by simp
  from pre have wm: "window_marked ?s1 = window_marked s" by simp
  from pre assms(3) have len: "c < length (bubbles ?s1)" by simp
  from fire_tick_last [OF t, of v] len show ?thesis
    unfolding run by (simp add: renderMarkdown_cong [OF wm])
qed

lemma typeText_ticksOn:
  "ticksOn c s = [] \<Longrightarrow> ticksOn c (typeText v c text s) = [TypeTick c text 0]"
  by (simp add: typeText_def setTimeout_def setInterval_def ticksOn_def)

lemma typeText_fields:
  "isTyping (typeText v c text s) = isTyping s"
  "sendButton_disabled (typeText v c text s) = sendButton_disabled s"
  "window_marked (typeText v c text s) = window_marked s"
  "bubbles (typeText v c text s) = (bubbles s)[c := InnerHTML []]"
  by (simp_all add: typeText_def setTimeout_def setInterval_def)

text \<open>
  C3. For every answer string, the reveal started by \<open>typeText\<close> on a bubble with no
  reveal of its own under way shows, after \<open>n \<le> length text\<close> ticks, the prefix the
  last tick wrote and leaves \<open>isTyping\<close> and the send button as they were; after
  \<open>length text + 1\<close> ticks its timer is gone, the bubble holds the markdown rendering of
  the whole string, \<open>isTyping\<close> is cleared and the send button is enabled.
\<close>

theorem typeText_terminal:
  assumes "container < length (bubbles s)" and "ticksOn container s = []"
  shows "(\<forall>n \<le> length text.
            ticksOn container (run_ticks v container n (typeText v container text s))
              = [TypeTick container text n]
          \<and> bubbles (run_ticks v container n (typeText v container text s)) ! container
              = shown text n
          \<and> isTyping (run_ticks v container n (typeText v container text s)) = isTyping s
          \<and> sendButton_disabled (run_ticks v container n (typeText v container text s))
              = sendButton_disabled s)
       \<and> ticksOn container (run_ticks v container (length text + 1) (typeText v container text s)) = []
       \<and> bubbles (run_ticks v container (length text + 1) (typeText v container text s)) ! container
            = InnerHTML (renderMarkdown s text)
       \<and> \<not> isTyping (run_ticks v container (length text + 1) (typeText v container text s))
       \<and> \<not> sendButton_disabled
              (run_ticks v container (length text + 1) (typeText v container text s))"
proof -
  let ?s0 = "typeText v container text s"
  have t0: "ticksOn container ?s0 = [TypeTick container text 0]"
    using assms(2) by (rule typeText_ticksOn)
  have c0: "container < length (bubbles ?s0)"
    using assms(1) by (simp add: typeText_fields)
  have b0: "bubbles ?s0 ! container = InnerHTML []"
    using assms(1) by (simp add: typeText_fields)
  have part1: "ticksOn container (run_ticks v container n ?s0) = [TypeTick container text n]
          \<and> bubbles (run_ticks v container n ?s0) ! container = shown text n
          \<and> isTyping (run_ticks v container n ?s0) = isTyping s
          \<and> sendButton_disabled (run_ticks v container n ?s0) = sendButton_disabled s"
    if "n \<le> length text" for n
  proof -
    from that have "0 + n \<le> length text" by simp
    from run_ticks_prefix [OF t0 this c0, of v] b0 show ?thesis
      by (cases n) (simp_all add: typeText_fields)
  qed
  have "0 \<le> length text" by simp
  from run_ticks_complete [OF t0 this c0, of v]
  have part2: "ticksOn container (run_ticks v container (length text + 1) ?s0) = []
       \<and> bubbles (run_ticks v container (length text + 1) ?s0) ! container
            = InnerHTML (renderMarkdown s text)
       \<and> \<not> isTyping (run_ticks v container (length text + 1) ?s0)
       \<and> \<not> sendButton_disabled (run_ticks v container (length text + 1) ?s0)"
    by (simp add: renderMarkdown_cong [OF typeText_fields(3)])
  from part1 part2 show ?thesis by blast
qed

theorem typeText_terminal_witness:
  "0 < length (bubbles example_chat) \<and> ticksOn 0 example_chat = []
   \<and> bubbles (run_ticks ScriptJs 0 3 (typeText ScriptJs 0 (js ''Yes'') example_chat)) ! 0
       = TextContent (js ''Ye'')
   \<and> isTyping (run_ticks ScriptJs 0 3 (typeText ScriptJs 0 (js ''Yes'') example_chat))
   \<and> bubbles (run_ticks ScriptJs 0 4 (typeText ScriptJs 0 (js ''Yes'') example_chat)) ! 0
       = InnerHTML (js ''Yes'')
   \<and> \<not> isTyping (run_ticks ScriptJs 0 4 (typeText ScriptJs 0 (js ''Yes'') example_chat))
   \<and> \<not> sendButton_disabled (run_ticks ScriptJs 0 4 (typeText ScriptJs 0 (js ''Yes'') example_chat))"
proof -
  have h1: "0 < length (bubbles example_chat)" by (simp add: example_chat_state)
  have h2: "ticksOn 0 example_chat = []" by (simp add: ticksOn_def example_chat_state)
  have len: "length (js ''Yes'') = 3" by (simp add: js_def)
  have rm: "renderMarkdown example_chat (js ''Yes'') = js ''Yes''"
    by (simp add: renderMarkdown_def example_chat_state strings)
  have sh: "shown (js ''Yes'') 3 = TextContent (js ''Ye'')"
    by (simp add: numeral_eq_Suc js_def)
  from typeText_terminal [OF h1 h2, of "js ''Yes''" ScriptJs]
  have "(\<forall>n \<le> 3. bubbles (run_ticks ScriptJs 0 n (typeText ScriptJs 0 (js ''Yes'') example_chat)) ! 0
              = shown (js ''Yes'') n
          \<and> isTyping (run_ticks ScriptJs 0 n (typeText ScriptJs 0 (js ''Yes'') example_chat))
              = isTyping example_chat)
       \<and> bubbles (run_ticks ScriptJs 0 4 (typeText ScriptJs 0 (js ''Yes'') example_chat)) ! 0
            = InnerHTML (js ''Yes'')
       \<and> \<not> isTyping (run_ticks ScriptJs 0 4 (typeText ScriptJs 0 (js ''Yes'') example_chat))
       \<and> \<not> sendButton_disabled (run_ticks ScriptJs 0 4 (typeText ScriptJs 0 (js ''Yes'') example_chat))"
    unfolding len rm by simp
  with h1 h2 sh show ?thesis by (simp add: example_chat_state)
qed

section \<open>At most one reveal in every reachable state\<close>

lemma tick_ok_not_tick: "\<not> isTick t \<Longrightarrow> tick_ok bs t"
  by (cases t) simp_all

lemma ask_ok_not_ask: "\<not> isAsk r \<Longrightarrow> ask_ok bs r"
  by (cases r) simp_all

lemma no_ticks_ok:
  "filter (\<lambda>t. isTick (snd t)) ts = [] \<Longrightarrow> list_all (\<lambda>t. tick_ok bs (snd t)) ts"
  by (induction ts) (auto simp: tick_ok_not_tick split: if_splits)

lemma no_asks_ok: "filter isAsk rs = [] \<Longrightarrow> list_all (ask_ok bs) rs"
  by (induction rs) (auto simp: ask_ok_not_ask split: if_splits)

lemma reveal_inv_idle:
  "reveals s = [] \<Longrightarrow> asks s = [] \<Longrightarrow> \<not> isTyping s \<Longrightarrow> reveal_inv s"
  by (simp add: reveal_inv_def reveals_def asks_def no_ticks_ok no_asks_ok)

text \<open>A step that leaves \<open>isTyping\<close> and the bubbles alone and only appends timers
  that are no ticks and requests that are no asks keeps the invariant.\<close>

lemma reveal_inv_frame:
  assumes "reveal_inv s"
    and "isTyping s' = isTyping s" and "bubbles s' = bubbles s"
    and "timers s' = timers s @ ts" and "filter (\<lambda>t. isTick (snd t)) ts = []"
    and "requests s' = requests s @ rs" and "filter isAsk rs = []"
  shows "reveal_inv s'"
  using assms
  by (simp add: reveal_inv_def reveals_def asks_def no_ticks_ok no_asks_ok)

lemma filter_delete_at:
  "k < length xs \<Longrightarrow>
   length (filter P (delete_at k xs)) = length (filter P xs) - (if P (xs ! k) then 1 else 0)"
proof -
  assume k: "k < length xs"
  then have "xs = take k xs @ xs ! k # drop (Suc k) xs"
    by (simp add: id_take_nth_drop)
  then have "filter P xs = filter P (take k xs) @ filter P [xs ! k] @ filter P (drop (Suc k) xs)"
    by (metis append_Cons append_Nil filter_append)
  then show ?thesis by (simp add: delete_at_def)
qed

lemma list_all_delete_at: "list_all P xs \<Longrightarrow> list_all P (delete_at k xs)"
  by (auto simp: delete_at_def list_all_iff dest: in_set_takeD in_set_dropD)

lemma inv_fileInput_change: "reveal_inv s \<Longrightarrow> reveal_inv (fileInput_change v s)"
  by (cases v; cases "fileInput_files s")
     (auto intro!: reveal_inv_frame [where s = s]
           simp: fileInput_change_def fetch_def setProgress_def simulateProgress_def
                 simulateSideLoading_def setTimeout_def setInterval_def)

lemma inv_upload_catch: "reveal_inv s \<Longrightarrow> reveal_inv (upload_catch v s)"
  by (cases v)
     (auto intro!: reveal_inv_frame [where s = s and ts = "[]" and rs = "[]"]
           simp: upload_catch_def resetUploadUI_def setProgress_def)

lemma inv_setProgress: "reveal_inv s \<Longrightarrow> reveal_inv (setProgress p s)"
  by (auto intro!: reveal_inv_frame [where s = s and ts = "[]" and rs = "[]"]
           simp: setProgress_def)

lemma inv_showSummary: "reveal_inv s \<Longrightarrow> reveal_inv (showSummary v d s)"
  by (auto intro!: reveal_inv_frame [where s = s and ts = "[]" and rs = "[]"]
           simp: showSummary_def addSystemMessage_def)

lemma inv_displays:
  "reveal_inv s \<Longrightarrow>
   reveal_inv (s\<lparr>processingOverlay_display := a, resultsContainer_display := b\<rparr>)"
  by (auto intro!: reveal_inv_frame [where s = s and ts = "[]" and rs = "[]"])

lemma inv_setTimeout: "reveal_inv s \<Longrightarrow> \<not> isTick t \<Longrightarrow> reveal_inv (setTimeout t d s)"
  by (auto intro!: reveal_inv_frame [where s = s and rs = "[]"] simp: setTimeout_def)

lemma inv_setInterval: "reveal_inv s \<Longrightarrow> \<not> isTick t \<Longrightarrow> reveal_inv (setInterval t d s)"
  by (auto intro!: reveal_inv_frame [where s = s and rs = "[]"] simp: setInterval_def)

lemma inv_fileInput_change_settled:
  "reveal_inv s \<Longrightarrow> reveal_inv (fileInput_change_settled v r s)"
  by (auto simp: fileInput_change_settled_def inv_upload_catch inv_setProgress inv_showSummary
        inv_displays inv_setTimeout
      split: variant.splits response.splits body.splits)

lemma inv_clearChat: "reveal_inv s \<Longrightarrow> reveal_inv (clearChat v s)"
  by (auto intro!: reveal_inv_frame [where s = s and ts = "[]" and rs = "[]"]
           simp: clearChat_def addSystemMessage_def Let_def)

lemma inv_page_load: "reveal_inv (page_load v html)"
  by (cases v)
     (simp_all add: reveal_inv_def reveals_def asks_def page_load_def startSessionTimer_def
        setTimeout_def setInterval_def)

lemma reveal_inv_same:
  assumes "reveal_inv s"
    and "isTyping s' = isTyping s" and "bubbles s' = bubbles s"
    and "timers s' = timers s" and "requests s' = requests s"
  shows "reveal_inv s'"
  using assms by (simp add: reveal_inv_def reveals_def asks_def)

lemma inv_addSystemMessage: "reveal_inv s \<Longrightarrow> reveal_inv (addSystemMessage m s)"
  by (erule reveal_inv_same) (simp_all add: addSystemMessage_def)

lemma inv_startNewSession: "reveal_inv s \<Longrightarrow> reveal_inv (startNewSession v html s)"
proof (cases v)
  case ScriptJs
  then show ?thesis by (simp add: startNewSession_def inv_page_load)
next
  case Part000
  assume inv: "reveal_inv s"
  let ?s2 = "s\<lparr>uploadArea_display := DisplayBlock,
               processingOverlay_display := DisplayNone,
               successMessage_display := DisplayNone,
               resultsContainer_display := DisplayNone,
               fileInput_files := []\<rparr>"
  let ?s3 = "clearChat v ?s2"
  let ?s5 = "?s3\<lparr>chatInput_disabled := True, sendButton_disabled := True,
                 summaryContent :=
                   InnerHTML (js ''<p>Your AI-generated summary will appear here...</p>'')\<rparr>"
  from inv have "reveal_inv ?s2" by (rule reveal_inv_same) simp_all
  then have "reveal_inv ?s3" by (rule inv_clearChat)
  then have "reveal_inv ?s5" by (rule reveal_inv_same) simp_all
  then have "reveal_inv (startSessionTimer (addSystemMessage m ?s5))" for m
    unfolding startSessionTimer_def by (intro inv_setInterval inv_addSystemMessage) simp_all
  then show ?thesis using Part000 by (simp add: startNewSession_def Let_def)
qed

lemma idle_lists:
  assumes "reveal_inv s" and "\<not> isTyping s"
  shows "reveals s = []" and "asks s = []"
  using assms by (simp_all add: reveal_inv_def)

lemma inv_sendMessage: "reveal_inv s \<Longrightarrow> reveal_inv (sendMessage v s)"
proof (cases "trim (chatInput_value s) = [] \<or> isTyping s")
  case True
  assume "reveal_inv s"
  with True show ?thesis by (auto simp: sendMessage_def Let_def)
next
  case False
  assume inv: "reveal_inv s"
  from False have nt: "\<not> isTyping s" by simp
  note idle = idle_lists [OF inv nt]
  have "reveals (sendMessage v s) = []"
    using False idle
    by (simp add: sendMessage_def Let_def createAIBubble_def fetch_def addUserMessage_def
          reveals_def)
  moreover have "length (asks (sendMessage v s)) = 1"
    using False idle
    by (simp add: sendMessage_def Let_def createAIBubble_def fetch_def addUserMessage_def
          asks_def)
  moreover have "isTyping (sendMessage v s)"
    using False
    by (simp add: sendMessage_def Let_def createAIBubble_def fetch_def addUserMessage_def)
  moreover have "list_all (\<lambda>t. tick_ok (bubbles (sendMessage v s)) (snd t)) (timers (sendMessage v s))"
    using False idle
    by (simp add: sendMessage_def Let_def createAIBubble_def fetch_def addUserMessage_def
          reveals_def no_ticks_ok)
  moreover have "list_all (ask_ok (bubbles (sendMessage v s))) (requests (sendMessage v s))"
    using False idle
    by (simp add: sendMessage_def Let_def createAIBubble_def fetch_def addUserMessage_def
          asks_def no_asks_ok)
  ultimately show ?thesis by (simp add: reveal_inv_def)
qed

lemma inv_sendQuickPrompt: "reveal_inv s \<Longrightarrow> reveal_inv (sendQuickPrompt v p s)"
proof -
  assume inv: "reveal_inv s"
  then have "reveal_inv (s\<lparr>chatInput_value := p\<rparr>)"
    by (auto intro!: reveal_inv_frame [where s = s and ts = "[]" and rs = "[]"])
  then have 1: "reveal_inv (sendMessage v (s\<lparr>chatInput_value := p\<rparr>))"
    by (rule inv_sendMessage)
  from inv have 2: "reveal_inv (addSystemMessage m s)" for m
    by (auto intro!: reveal_inv_frame [where s = s and ts = "[]" and rs = "[]"]
             simp: addSystemMessage_def)
  from 1 2 show ?thesis by (simp add: sendQuickPrompt_def)
qed

lemma inv_act: "reveal_inv s \<Longrightarrow> reveal_inv (act v html a s)"
proof (cases a)
  case (SelectFiles files)
  assume "reveal_inv s"
  then have "reveal_inv (s\<lparr>fileInput_files := files\<rparr>)"
    by (auto intro!: reveal_inv_frame [where s = s and ts = "[]" and rs = "[]"])
  with SelectFiles show ?thesis by (simp add: inv_fileInput_change)
next
  case (DropFiles files)
  assume inv: "reveal_inv s"
  then have "reveal_inv (s\<lparr>fileInput_files := files\<rparr>)"
    by (auto intro!: reveal_inv_frame [where s = s and ts = "[]" and rs = "[]"])
  with DropFiles inv show ?thesis
    by (cases v) (simp_all add: handleDrop_def inv_fileInput_change)
next
  case (TypeInput t)
  assume inv: "reveal_inv s"
  then have "reveal_inv (s\<lparr>chatInput_value := t\<rparr>)"
    by (auto intro!: reveal_inv_frame [where s = s and ts = "[]" and rs = "[]"])
  with TypeInput inv show ?thesis by simp
next
  case ClickSend
  assume "reveal_inv s"
  with ClickSend show ?thesis by (simp add: inv_sendMessage)
next
  case (KeyDown key shiftKey)
  assume "reveal_inv s"
  with KeyDown show ?thesis by (cases v) (simp_all add: keydown_def inv_sendMessage)
next
  case (QuickPrompt p)
  assume "reveal_inv s"
  with QuickPrompt show ?thesis by (simp add: inv_sendQuickPrompt)
next
  case ClearChat
  assume "reveal_inv s"
  with ClearChat show ?thesis by (simp add: inv_clearChat)
next
  case NewSession
  assume "reveal_inv s"
  with NewSession show ?thesis by (simp add: inv_startNewSession)
qed

lemma sendMessage_settled_typeText:
  "\<exists>text. sendMessage_settled v b r rnd s = typeText v b text s"
  by (auto simp: sendMessage_settled_def sendMessage_catch_def
           split: response.splits body.splits variant.splits)

lemma inv_typeText:
  assumes "isTyping s" and "reveals s = []" and "asks s = []" and "b < length (bubbles s)"
  shows "reveal_inv (typeText v b text s)"
  using assms
  by (auto simp: typeText_def setTimeout_def setInterval_def reveal_inv_def reveals_def asks_def
        no_ticks_ok no_asks_ok)

lemma inv_settle: "reveal_inv s \<Longrightarrow> reveal_inv (settle v k r rnd s)"
proof (cases "k < length (requests s)")
  case False
  assume "reveal_inv s"
  with False show ?thesis by (simp add: settle_def)
next
  case k: True
  assume inv: "reveal_inv s"
  let ?s1 = "s\<lparr>requests := delete_at k (requests s)\<rparr>"
  show ?thesis
  proof (cases "requests s ! k")
    case (UploadRequest f)
    have "length (asks ?s1) = length (asks s)"
      using k UploadRequest by (simp add: asks_def filter_delete_at)
    with inv have "reveal_inv ?s1"
      by (simp add: reveal_inv_def reveals_def list_all_delete_at)
    then show ?thesis using k UploadRequest
      by (simp add: settle_def inv_fileInput_change_settled)
  next
    case (AskRequest b q)
    have len: "length (asks ?s1) = length (asks s) - 1"
      using k AskRequest by (simp add: asks_def filter_delete_at)
    from k have "requests s ! k \<in> set (requests s)" by simp
    with AskRequest have "AskRequest b q \<in> set (asks s)"
      by (simp add: asks_def)
    then have pos: "0 < length (asks s)" by (cases "asks s") auto
    with inv have typing: "isTyping s" and one: "length (reveals s) + length (asks s) = 1"
      by (auto simp: reveal_inv_def split: if_splits)
    from one pos have "length (reveals s) = 0" by (cases "asks s") simp_all
    then have r0: "reveals ?s1 = []" by (simp add: reveals_def)
    from one pos len have "length (asks ?s1) = 0" by (cases "asks s") simp_all
    then have a0: "asks ?s1 = []" by simp
    from inv k AskRequest have blen: "b < length (bubbles ?s1)"
      using list_all_length [of "ask_ok (bubbles s)" "requests s"]
      by (auto simp: reveal_inv_def)
    have tt: "reveal_inv (typeText v b t ?s1)" for t
      using typing r0 a0 blen by (intro inv_typeText) simp_all
    from sendMessage_settled_typeText [of v b r rnd ?s1] obtain t
      where "sendMessage_settled v b r rnd ?s1 = typeText v b t ?s1" by blast
    with tt [of t] show ?thesis
      using k AskRequest by (simp add: settle_def)
  qed
qed

lemma inv_run_task_other:
  assumes "reveal_inv s" and "\<not> isTick t"
  shows "reveal_inv (run_task v due t s)"
proof (cases t)
  case (UpdateProgress p secs)
  have "reveal_inv (setProgress q s)" for q using assms(1) by (rule inv_setProgress)
  then have a: "reveal_inv ((setProgress q s)\<lparr>fileTime := n\<rparr>)" for q n
    by (rule reveal_inv_same) simp_all
  have b: "reveal_inv (setProgress q s)" for q using assms(1) by (rule inv_setProgress)
  show ?thesis unfolding UpdateProgress
    by (simp add: Let_def a b inv_setTimeout)
next
  case (Update p f)
  have "reveal_inv (fetch (UploadRequest f) (setProgress 100 s))"
    by (rule reveal_inv_frame [where s = s and ts = "[]" and rs = "[UploadRequest f]"])
       (simp_all add: assms(1) fetch_def setProgress_def)
  then show ?thesis unfolding Update
    by (simp add: inv_setTimeout inv_setProgress assms(1))
next
  case (ShowSuccess d)
  have "reveal_inv (s\<lparr>processingOverlay_display := DisplayNone,
          successMessage_display := DisplayFlex\<rparr>)"
    using assms(1) by (rule reveal_inv_same) simp_all
  then show ?thesis unfolding ShowSuccess by (simp add: inv_setTimeout)
next
  case (ShowResults d)
  have "reveal_inv (s\<lparr>successMessage_display := DisplayNone,
                 resultsContainer_display := DisplayBlock\<rparr>)"
    using assms(1) by (rule reveal_inv_same) simp_all
  then show ?thesis unfolding ShowResults
    by (cases d) (simp_all add: Let_def inv_showSummary)
next
  case (TypeTick c tx i)
  with assms(2) show ?thesis by simp
next
  case SessionTick
  have "reveal_inv (s\<lparr>timers := timers s @ [(due + 60000, SessionTick)]\<rparr>)"
    by (rule reveal_inv_frame [where s = s and ts = "[(due + 60000, SessionTick)]" and rs = "[]"])
       (simp_all add: assms(1))
  then show ?thesis unfolding SessionTick by simp
qed

lemma inv_fire: "reveal_inv s \<Longrightarrow> reveal_inv (fire v k s)"
proof (cases "k < length (timers s)")
  case False
  assume "reveal_inv s"
  with False show ?thesis by (simp add: fire_def)
next
  case k: True
  assume inv: "reveal_inv s"
  obtain due t where dt: "timers s ! k = (due, t)" by (cases "timers s ! k")
  let ?s1 = "s\<lparr>timers := delete_at k (timers s), now := max (now s) due\<rparr>"
  have fire: "fire v k s = run_task v due t ?s1"
    using k dt by (simp add: fire_def)
  from inv have all1: "list_all (\<lambda>t. tick_ok (bubbles s) (snd t)) (delete_at k (timers s))"
    by (simp add: reveal_inv_def list_all_delete_at)
  show ?thesis
  proof (cases "isTick t")
    case False
    have "length (reveals ?s1) = length (reveals s)"
      using k dt False by (simp add: reveals_def filter_delete_at)
    with inv all1 have "reveal_inv ?s1"
      by (simp add: reveal_inv_def asks_def)
    then show ?thesis unfolding fire using False by (rule inv_run_task_other)
  next
    case True
    then obtain c tx i where t: "t = TypeTick c tx i" by (cases t) simp_all
    from k dt have mem: "(due, t) \<in> set (timers s)" by (metis nth_mem)
    with True have "(due, t) \<in> set (reveals s)" by (simp add: reveals_def)
    then have pos: "reveals s \<noteq> []" by auto
    with inv have typing: "isTyping s" and one: "length (reveals s) + length (asks s) = 1"
      by (auto simp: reveal_inv_def split: if_splits)
    have len: "length (reveals ?s1) = length (reveals s) - 1"
      using k dt True by (simp add: reveals_def filter_delete_at)
    from one pos have a0: "asks s = []" by (cases "reveals s") simp_all
    from one pos len have "length (reveals ?s1) = 0" by (cases "reveals s") simp_all
    then have r1: "filter (\<lambda>t. isTick (snd t)) (delete_at k (timers s)) = []"
      by (simp add: reveals_def)
    from inv mem t have ok: "c < length (bubbles s)" "i \<le> length tx"
      by (auto simp: reveal_inv_def list_all_iff)
    show ?thesis
    proof (cases "i + 1 > length tx")
      case True
      show ?thesis unfolding fire t using True a0 r1
        by (simp add: reveal_inv_def reveals_def asks_def no_ticks_ok no_asks_ok)
    next
      case False
      show ?thesis unfolding fire t using False a0 r1 typing ok
        by (simp add: reveal_inv_def reveals_def asks_def no_ticks_ok no_asks_ok)
    qed
  qed
qed

lemma inv_step: "reveal_inv s \<Longrightarrow> reveal_inv (step v html s e)"
  by (cases e) (simp_all add: inv_act inv_fire inv_settle)

lemma inv_exec: "reveal_inv s \<Longrightarrow> reveal_inv (exec v html es s)"
  unfolding exec_def by (induction es arbitrary: s) (simp_all add: inv_step)

lemma inv_reachable: "reveal_inv (exec v html es (page_load v html))"
  by (rule inv_exec) (rule inv_page_load)

lemma reveals_at_most_one: "reveal_inv s \<Longrightarrow> length (reveals s) \<le> 1"
  by (simp add: reveal_inv_def split: if_splits)

lemma tick_ok_nth:
  assumes "reveal_inv s" and "k < length (timers s)"
    and "snd (timers s ! k) = TypeTick c tx i"
  shows "c < length (bubbles s) \<and> i \<le> length tx \<and> bubbles s ! c = shown tx i"
proof -
  from assms(1) have "list_all (\<lambda>t. tick_ok (bubbles s) (snd t)) (timers s)"
    by (simp add: reveal_inv_def)
  with assms(2) have "tick_ok (bubbles s) (snd (timers s ! k))"
    by (simp add: list_all_length)
  with assms(3) show ?thesis by simp
qed

lemma fire_tick_at:
  assumes "k < length (timers s)" and "snd (timers s ! k) = TypeTick c tx i"
    and "c < length (bubbles s)" and "i \<le> length tx"
  shows "bubbles (fire v k s) ! c =
           (if i = length tx then InnerHTML (renderMarkdown s tx) else TextContent (take i tx))"
  using assms by (auto simp: fire_def renderMarkdown_def)

lemma sendMessage_typing: "isTyping s \<Longrightarrow> sendMessage v s = s"
  by (simp add: sendMessage_def)

text \<open>
  C5. In every state the page can reach, whatever the order in which timers and
  requests complete, at most one reveal is under way, and \<open>isTyping\<close> is set exactly
  while one reveal or one ask request is; while it is set \<open>sendMessage\<close> does nothing,
  which keeps a second reveal from starting. The bubble of the reveal under way shows a
  prefix of that reveal's own text, and its next tick writes the next prefix or, as
  the last tick, the rendering of its own whole string.
\<close>

theorem one_reveal_at_a_time:
  assumes "s = exec v html es (page_load v html)"
  shows "length (reveals s) \<le> 1
       \<and> length (reveals s) + length (asks s) = (if isTyping s then 1 else 0)
       \<and> (isTyping s \<longrightarrow> sendMessage v s = s)
       \<and> (\<forall>k c text i.
             k < length (timers s) \<and> snd (timers s ! k) = TypeTick c text i \<longrightarrow>
             bubbles s ! c = shown text i
             \<and> bubbles (fire v k s) ! c =
                 (if i = length text then InnerHTML (renderMarkdown s text)
                  else TextContent (take i text)))"
proof -
  have inv: "reveal_inv s" unfolding assms by (rule inv_reachable)
  have "bubbles s ! c = shown tx i
        \<and> bubbles (fire v k s) ! c =
            (if i = length tx then InnerHTML (renderMarkdown s tx) else TextContent (take i tx))"
    if "k < length (timers s)" and "snd (timers s ! k) = TypeTick c tx i" for k c tx i
    using tick_ok_nth [OF inv that] fire_tick_at [OF that, of v] by simp
  then have ticks: "\<forall>k c tx i.
             k < length (timers s) \<and> snd (timers s ! k) = TypeTick c tx i \<longrightarrow>
             bubbles s ! c = shown tx i
             \<and> bubbles (fire v k s) ! c =
                 (if i = length tx then InnerHTML (renderMarkdown s tx)
                  else TextContent (take i tx))"
    by blast
  have count: "length (reveals s) + length (asks s) = (if isTyping s then 1 else 0)"
    using inv by (simp add: reveal_inv_def)
  have guard: "isTyping s \<longrightarrow> sendMessage v s = s"
    by (simp add: sendMessage_typing)
  from reveals_at_most_one [OF inv] count guard ticks show ?thesis
    by blast
qed

theorem one_reveal_at_a_time_witness:
  "length (reveals example_typing) = 1
   \<and> isTyping example_typing
   \<and> sendMessage ScriptJs example_typing = example_typing
   \<and> snd (timers example_typing ! 0) = TypeTick 0 (js ''John Doe'') 2
   \<and> bubbles example_typing ! 0 = TextContent (js ''J'')
   \<and> bubbles (fire ScriptJs 0 example_typing) ! 0 = TextContent (js ''Jo'')"
proof -
  note inst = one_reveal_at_a_time [OF example_typing_reachable]
  have typing: "isTyping example_typing" by (simp add: example_typing_state)
  have k: "0 < length (timers example_typing)
           \<and> snd (timers example_typing ! 0) = TypeTick 0 (js ''John Doe'') 2"
    by (simp add: example_typing_state)
  from inst typing have 1: "sendMessage ScriptJs example_typing = example_typing" by blast
  from inst k have 2: "bubbles example_typing ! 0 = shown (js ''John Doe'') 2
      \<and> bubbles (fire ScriptJs 0 example_typing) ! 0 =
          (if 2 = length (js ''John Doe'') then InnerHTML (renderMarkdown example_typing (js ''John Doe''))
           else TextContent (take 2 (js ''John Doe'')))" by blast
  have 3: "length (reveals example_typing) = 1"
    by (simp add: reveals_def example_typing_state)
  have 4: "shown (js ''John Doe'') 2 = TextContent (js ''J'')"
    by (simp add: numeral_eq_Suc js_def)
  from 1 2 3 4 typing k show ?thesis by (simp add: js_def)
qed

section \<open>The part_000 upload, timer by timer\<close>

lemma example_progress100_state:
  "example_progress100 =
     \<lparr>window_marked = None, isTyping = False, currentFileName = js ''report.pdf'',
      fileInput_files = [js ''report.pdf''],
      uploadArea_display = DisplayNone, processingOverlay_display = DisplayFlex,
      successMessage_display = Stylesheet, resultsContainer_display = Stylesheet,
      progressPercent = 100, fileName_text = js ''report.pdf'', fileTime = 9,
      summaryContent = InnerHTML [], chatInput_value = [],
      chatInput_disabled = True, sendButton_disabled = True,
      chatMessages = [WelcomeNode (js ''Hello'')], bubbles = [], alerts = [],
      progressTrace =
        [11..<18] @
        [81, 18, 82, 83, 19, 84, 20, 85, 21, 86, 87, 22, 88,
         23, 89, 24, 90, 91, 25, 92, 26, 93, 27, 94, 95, 28, 96, 29, 97, 30, 98, 99, 31,
         100],
      now = 2140,
      timers = [(60000, SessionTick), (2180, UpdateProgress 31 9),
                (2200, Update 100 (js ''report.pdf''))],
      requests = []\<rparr>"
  by (simp add: example_progress100_def examples loop handlers strings)

lemma example_requested_state:
  "example_requested =
     \<lparr>window_marked = None, isTyping = False, currentFileName = js ''report.pdf'',
      fileInput_files = [js ''report.pdf''],
      uploadArea_display = DisplayNone, processingOverlay_display = DisplayFlex,
      successMessage_display = Stylesheet, resultsContainer_display = Stylesheet,
      progressPercent = 36, fileName_text = js ''report.pdf'', fileTime = 10,
      summaryContent = InnerHTML [], chatInput_value = [],
      chatInput_disabled = True, sendButton_disabled = True,
      chatMessages = [WelcomeNode (js ''Hello'')], bubbles = [], alerts = [],
      progressTrace =
        [11..<18] @
        [81, 18, 82, 83, 19, 84, 20, 85, 21, 86, 87, 22, 88,
         23, 89, 24, 90, 91, 25, 92, 26, 93, 27, 94, 95, 28, 96, 29, 97, 30, 98, 99, 31,
         100, 32, 100, 33, 34, 35, 36],
      now = 2500,
      timers = [(60000, SessionTick), (2580, UpdateProgress 36 10)],
      requests = [UploadRequest (js ''report.pdf'')]\<rparr>"
  by (simp add: example_requested_def example_progress100_state loop handlers strings)

lemma example_uploaded_state:
  "example_uploaded (JsonObject []) =
     \<lparr>window_marked = None, isTyping = False, currentFileName = js ''report.pdf'',
      fileInput_files = [js ''report.pdf''],
      uploadArea_display = DisplayNone, processingOverlay_display = DisplayNone,
      successMessage_display = DisplayNone, resultsContainer_display = DisplayBlock,
      progressPercent = 80, fileName_text = js ''report.pdf'', fileTime = 19,
      summaryContent = InnerHTML (js ''Document processed successfully!''),
      chatInput_value = [],
      chatInput_disabled = False, sendButton_disabled = False,
      chatMessages = chatMessages (addSystemMessage (uploadedMessage Part000) example_html),
      bubbles = [], alerts = [],
      progressTrace =
        [11..<18] @
        [81, 18, 82, 83, 19, 84, 20, 85, 21, 86, 87, 22, 88,
         23, 89, 24, 90, 91, 25, 92, 26, 93, 27, 94, 95, 28, 96, 29, 97, 30, 98, 99, 31,
         100, 32, 100, 33, 34, 35, 36, 100]
        @ [37..<81],
      now = 6020,
      timers = [(60000, SessionTick)],
      requests = []\<rparr>"
  by (simp add: example_uploaded_def example_requested_state example_html_def loop handlers
        strings)


section \<open>Clear chat\<close>

lemma find_isWelcome: "find isWelcome ns = Some w \<Longrightarrow> isWelcome w"
  by (induction ns) (auto split: if_splits)

lemma clearChat_log:
  "chatMessages (clearChat v s) =
     (case find isWelcome (chatMessages s) of None \<Rightarrow> [] | Some w \<Rightarrow> [w])
     @ chatMessages (addSystemMessage (chatClearedMessage v) (s\<lparr>chatMessages := []\<rparr>))"
  by (simp add: clearChat_def addSystemMessage_def Let_def)

lemma clearChat_find:
  "find isWelcome (chatMessages (clearChat v s)) = find isWelcome (chatMessages s)"
  by (cases "find isWelcome (chatMessages s)")
     (auto simp: clearChat_def addSystemMessage_def Let_def dest: find_isWelcome)

lemma clearChat_twice: "clearChat v (clearChat v s) = clearChat v s"
proof -
  have "clearChat v (clearChat v s) =
          addSystemMessage (chatClearedMessage v)
            ((clearChat v s)\<lparr>chatMessages :=
                (case find isWelcome (chatMessages s) of None \<Rightarrow> [] | Some w \<Rightarrow> [w]),
              chatInput_value := []\<rparr>)"
    using clearChat_find [of v s] by (simp add: clearChat_def [of v "clearChat v s"] Let_def)
  also have "\<dots> = clearChat v s"
    by (simp add: clearChat_def addSystemMessage_def Let_def)
  finally show ?thesis .
qed

text \<open>
  C8 as amended. Clearing is idempotent: a second clear changes nothing. The log after a
  clear is the pinned welcome entry, when the page has one, followed by the one system
  message that reports the clear; the input field is emptied and everything else (chat
  enablement, summary, progress and the rest of the state) is as before.
\<close>

theorem clearChat_idempotent:
  "clearChat v (clearChat v s) = clearChat v s
   \<and> chatMessages (clearChat v s) =
       (case find isWelcome (chatMessages s) of None \<Rightarrow> [] | Some w \<Rightarrow> [w])
       @ chatMessages (addSystemMessage (chatClearedMessage v) (s\<lparr>chatMessages := []\<rparr>))
   \<and> chatInput_value (clearChat v s) = []
   \<and> (clearChat v s)\<lparr>chatMessages := chatMessages s, chatInput_value := chatInput_value s\<rparr> = s"
  by (simp add: clearChat_twice clearChat_log)
     (simp add: clearChat_def addSystemMessage_def Let_def)

theorem clearChat_idempotent_witness:
  "clearChat Part000 (clearChat Part000 example_typing) = clearChat Part000 example_typing
   \<and> length (chatMessages (clearChat Part000 example_typing)) = 2
   \<and> hd (chatMessages (clearChat Part000 example_typing)) = WelcomeNode (js ''Hello'')
   \<and> isTyping (clearChat Part000 example_typing)"
proof -
  have w: "find isWelcome (chatMessages example_typing) = Some (WelcomeNode (js ''Hello''))"
    by (simp add: examples loop handlers strings)
  from clearChat_idempotent [of Part000 example_typing] w example_typing_state
  show ?thesis by (simp add: addSystemMessage_def clearChat_def Let_def)
qed

text \<open>The claim C8 has the log after a clear hold the pinned welcome entry only: on the
  example page, whose log is that entry, a clear leaves two entries.\<close>

theorem clearChat_welcome_only_counterexample:
  "chatMessages example_html = [WelcomeNode (js ''Hello'')]
   \<and> chatMessages (clearChat ScriptJs example_html) \<noteq> [WelcomeNode (js ''Hello'')]
   \<and> length (chatMessages (clearChat ScriptJs example_html)) = 2"
  by (simp add: example_html_def clearChat_def addSystemMessage_def)

section \<open>New session\<close>

lemma startNewSession_Part000:
  "progressPercent (startNewSession Part000 html s) = progressPercent s
   \<and> chatInput_disabled (startNewSession Part000 html s)
   \<and> sendButton_disabled (startNewSession Part000 html s)
   \<and> summaryContent (startNewSession Part000 html s)
       = InnerHTML (js ''<p>Your AI-generated summary will appear here...</p>'')
   \<and> uploadArea_display (startNewSession Part000 html s) = DisplayBlock
   \<and> processingOverlay_display (startNewSession Part000 html s) = DisplayNone
   \<and> successMessage_display (startNewSession Part000 html s) = DisplayNone
   \<and> resultsContainer_display (startNewSession Part000 html s) = DisplayNone
   \<and> list_all (\<lambda>n. case n of UserNode h \<Rightarrow> False | AiNode b \<Rightarrow> False | _ \<Rightarrow> True)
         (chatMessages (startNewSession Part000 html s))"
  by (cases "find isWelcome (chatMessages s)")
     (auto simp: startNewSession_def clearChat_def addSystemMessage_def startSessionTimer_def
        setTimeout_def setInterval_def Let_def dest!: find_isWelcome elim: isWelcome.elims)

lemma resetUploadUI_progress: "progressPercent (resetUploadUI v s) = floorValue v"
  by (cases v) (simp_all add: resetUploadUI_def setProgress_def floorValue_def)

text \<open>
  C7, the code at the failing input. part_000 after an upload that succeeded: the
  progress element shows 80, the value the side-loading timer wrote last.
  \<open>startNewSession\<close> leaves it there, where \<open>resetUploadUI\<close>, which sets the same four
  \<open>display\<close> properties, writes the floor value 10. The rest of the reset is done: chat
  disabled, summary placeholder, no user or assistant entry left in the log.
\<close>

theorem startNewSession_keeps_stale_progress:
  "progressPercent (example_uploaded (JsonObject [])) = 80
   \<and> progressPercent (startNewSession Part000 example_html (example_uploaded (JsonObject []))) = 80
   \<and> progressPercent (resetUploadUI Part000 (example_uploaded (JsonObject []))) = 10
   \<and> chatInput_disabled (startNewSession Part000 example_html (example_uploaded (JsonObject [])))
   \<and> summaryContent (startNewSession Part000 example_html (example_uploaded (JsonObject [])))
       = InnerHTML (js ''<p>Your AI-generated summary will appear here...</p>'')"
  using startNewSession_Part000 [of example_html "example_uploaded (JsonObject [])"]
    resetUploadUI_progress [of Part000 "example_uploaded (JsonObject [])"]
  by (simp add: example_uploaded_state floorValue_def)

section \<open>Upload failure\<close>

lemma upload_catch_effect:
  "alerts (upload_catch v s) = alerts s @ [js ''Upload failed. Please try again.'']
   \<and> uploadArea_display (upload_catch v s) = DisplayBlock
   \<and> processingOverlay_display (upload_catch v s) = DisplayNone
   \<and> resultsContainer_display (upload_catch v s) = DisplayNone
   \<and> progressPercent (upload_catch v s) = floorValue v
   \<and> chatInput_disabled (upload_catch v s) = chatInput_disabled s
   \<and> sendButton_disabled (upload_catch v s) = sendButton_disabled s
   \<and> chatMessages (upload_catch v s) = chatMessages s
   \<and> summaryContent (upload_catch v s) = summaryContent s
   \<and> timers (upload_catch v s) = timers s
   \<and> requests (upload_catch v s) = requests s"
  by (cases v) (simp_all add: upload_catch_def resetUploadUI_def setProgress_def floorValue_def)

lemma failure_is_caught:
  "request_failure r \<Longrightarrow>
   fileInput_change_settled v r s = upload_catch v s
   \<or> fileInput_change_settled v r s = upload_catch v (setProgress 100 s)"
  by (cases r; cases v)
     (auto simp: fileInput_change_settled_def split: body.splits)

lemma setProgress_frame:
  "alerts (setProgress p s) = alerts s
   \<and> chatInput_disabled (setProgress p s) = chatInput_disabled s
   \<and> sendButton_disabled (setProgress p s) = sendButton_disabled s
   \<and> chatMessages (setProgress p s) = chatMessages s
   \<and> summaryContent (setProgress p s) = summaryContent s
   \<and> timers (setProgress p s) = timers s
   \<and> requests (setProgress p s) = requests s"
  by (simp add: setProgress_def)

lemma failure_effect:
  assumes "request_failure r"
  shows "alerts (fileInput_change_settled v r s)
           = alerts s @ [js ''Upload failed. Please try again.'']
   \<and> uploadArea_display (fileInput_change_settled v r s) = DisplayBlock
   \<and> processingOverlay_display (fileInput_change_settled v r s) = DisplayNone
   \<and> resultsContainer_display (fileInput_change_settled v r s) = DisplayNone
   \<and> progressPercent (fileInput_change_settled v r s) = floorValue v
   \<and> chatInput_disabled (fileInput_change_settled v r s) = chatInput_disabled s
   \<and> sendButton_disabled (fileInput_change_settled v r s) = sendButton_disabled s
   \<and> chatMessages (fileInput_change_settled v r s) = chatMessages s
   \<and> summaryContent (fileInput_change_settled v r s) = summaryContent s
   \<and> timers (fileInput_change_settled v r s) = timers s
   \<and> requests (fileInput_change_settled v r s) = requests s"
  using failure_is_caught [OF assms, of v s]
proof
  assume "fileInput_change_settled v r s = upload_catch v s"
  then show ?thesis by (simp add: upload_catch_effect)
next
  assume "fileInput_change_settled v r s = upload_catch v (setProgress 100 s)"
  then show ?thesis by (simp add: upload_catch_effect setProgress_frame)
qed

text \<open>
  What the failure handler does, in both versions, when the upload request in flight
  fails (network error, status outside 200-299, or a body that is no JSON): it alerts the
  user, shows the upload area again, hides the processing overlay and the results,
  writes the floor value to the progress element and leaves the chat input and the send
  button as they were. It sends no request and sets no timer, and it cancels none: the
  timers pending before are pending after.
\<close>

lemma upload_failure_handler:
  assumes "k < length (requests s)" and "requests s ! k = UploadRequest f"
    and "request_failure r"
  shows "alerts (settle v k r rnd s) = alerts s @ [js ''Upload failed. Please try again.'']
   \<and> uploadArea_display (settle v k r rnd s) = DisplayBlock
   \<and> processingOverlay_display (settle v k r rnd s) = DisplayNone
   \<and> resultsContainer_display (settle v k r rnd s) = DisplayNone
   \<and> progressPercent (settle v k r rnd s) = floorValue v
   \<and> chatInput_disabled (settle v k r rnd s) = chatInput_disabled s
   \<and> sendButton_disabled (settle v k r rnd s) = sendButton_disabled s
   \<and> chatMessages (settle v k r rnd s) = chatMessages s
   \<and> summaryContent (settle v k r rnd s) = summaryContent s
   \<and> timers (settle v k r rnd s) = timers s
   \<and> requests (settle v k r rnd s) = delete_at k (requests s)"
proof -
  have "settle v k r rnd s =
          fileInput_change_settled v r (s\<lparr>requests := delete_at k (requests s)\<rparr>)"
    using assms(1,2) by (simp add: settle_def)
  with failure_effect [OF assms(3), of v "s\<lparr>requests := delete_at k (requests s)\<rparr>"]
  show ?thesis by simp
qed

text \<open>
  C6, the code at the failing input. part_000, the example upload answered with status
  500 while the request is in flight, 300 ms after it was sent. The handler alerts the
  user, shows the upload area again and writes the floor value 10; the chat stays
  disabled and nothing is retried. The timer that \<open>simulateSideLoading\<close> set for this
  upload is still pending, since nothing cancels it: 80 ms later its callback writes 37
  over the floor value, and when the 44 timers due in the next four seconds have run the
  page is idle, upload area shown and chat disabled, with the progress element at 80.
\<close>

theorem upload_failure_progress_overwritten:
  "request_failure (Response 500 (JsonObject []))
   \<and> requests example_requested = [UploadRequest (js ''report.pdf'')]
   \<and> alerts (settle Part000 0 (Response 500 (JsonObject [])) 0 example_requested)
       = [js ''Upload failed. Please try again.'']
   \<and> uploadArea_display (settle Part000 0 (Response 500 (JsonObject [])) 0 example_requested)
       = DisplayBlock
   \<and> progressPercent (settle Part000 0 (Response 500 (JsonObject [])) 0 example_requested)
       = floorValue Part000
   \<and> floorValue Part000 = 10
   \<and> timers (settle Part000 0 (Response 500 (JsonObject [])) 0 example_requested)
       = [(60000, SessionTick), (2580, UpdateProgress 36 10)]
   \<and> progressPercent
        (fire_due Part000 (settle Part000 0 (Response 500 (JsonObject [])) 0 example_requested))
       = 37
   \<and> progressPercent
        (run_timers Part000 44
          (settle Part000 0 (Response 500 (JsonObject [])) 0 example_requested))
       = 80
   \<and> uploadArea_display
        (run_timers Part000 44
          (settle Part000 0 (Response 500 (JsonObject [])) 0 example_requested))
       = DisplayBlock
   \<and> chatInput_disabled
        (run_timers Part000 44
          (settle Part000 0 (Response 500 (JsonObject [])) 0 example_requested))
   \<and> requests
        (run_timers Part000 44
          (settle Part000 0 (Response 500 (JsonObject [])) 0 example_requested))
       = []
   \<and> timers
        (run_timers Part000 44
          (settle Part000 0 (Response 500 (JsonObject [])) 0 example_requested))
       = [(60000, SessionTick)]"
  by (simp add: example_requested_state floorValue_def loop handlers)

section \<open>Summary of a successful upload\<close>

text \<open>
  C9 as amended. On a successful upload (status 200-299, body a JSON object) the summary
  string is the \<open>summary\<close> field, or a default when the field is absent or empty: the
  empty string in script.js, ``Document processed successfully!'' in part_000. script.js
  renders it at once; part_000 sets a timer of one second and then one of two seconds,
  whose callback renders it. The summary pane then holds the markdown rendering of that
  string.
\<close>

theorem summary_default_and_rendering:
  assumes "ok status"
  shows "summaryContent (fileInput_change_settled ScriptJs (Response status (JsonObject data)) s)
           = InnerHTML (renderMarkdown s (or_default (field data (js ''summary'')) []))
       \<and> timers (fileInput_change_settled Part000 (Response status (JsonObject data)) s)
           = timers s @ [(now s + 1000, ShowSuccess (JsonObject data))]
       \<and> timers (run_task Part000 due (ShowSuccess (JsonObject data)) s)
           = timers s @ [(now s + 2000, ShowResults (JsonObject data))]
       \<and> summaryContent (run_task Part000 due (ShowResults (JsonObject data)) s)
           = InnerHTML (renderMarkdown s
               (or_default (field data (js ''summary'')) (js ''Document processed successfully!'')))
       \<and> (field data (js ''summary'') = None \<longrightarrow>
             or_default (field data (js ''summary'')) [] = []
             \<and> or_default (field data (js ''summary'')) (js ''Document processed successfully!'')
                 = js ''Document processed successfully!'')"
  using assms
  by (simp add: fileInput_change_settled_def showSummary_def addSystemMessage_def
        setProgress_def setTimeout_def setInterval_def summaryDefault_def renderMarkdown_def or_default_def)

theorem summary_default_and_rendering_witness:
  "ok 200 \<and> field [] (js ''summary'') = None
   \<and> summaryContent
        (fileInput_change_settled ScriptJs (Response 200 (JsonObject [])) example_html)
       = InnerHTML []
   \<and> summaryContent (run_task Part000 5500 (ShowResults (JsonObject [])) example_html)
       = InnerHTML (js ''Document processed successfully!'')"
proof -
  have h: "ok 200" by (simp add: ok_def)
  have f: "field [] (js ''summary'') = None" by (simp add: field_def)
  from summary_default_and_rendering [OF h, of "[]" example_html 5500] f
  have "summaryContent
          (fileInput_change_settled ScriptJs (Response 200 (JsonObject [])) example_html)
         = InnerHTML (renderMarkdown example_html [])
       \<and> summaryContent (run_task Part000 5500 (ShowResults (JsonObject [])) example_html)
         = InnerHTML (renderMarkdown example_html (js ''Document processed successfully!''))"
    by simp
  with h f show ?thesis by (simp add: strings example_html_def)
qed

text \<open>The claim C9 has the summary default to the empty string: in part_000 a response
  without the field gives a pane that is not the rendering of the empty string.\<close>

theorem summary_default_counterexample:
  "field [] (js ''summary'') = None
   \<and> summaryContent (example_uploaded (JsonObject []))
       = InnerHTML (js ''Document processed successfully!'')
   \<and> summaryContent (example_uploaded (JsonObject []))
       \<noteq> InnerHTML (renderMarkdown (example_uploaded (JsonObject [])) [])"
  by (simp add: example_uploaded_state strings)

section \<open>Progress during an upload\<close>








section \<open>Failure of an ask request\<close>

lemma example_asked_state:
  "bubbles example_asked = [InnerHTML []]
   \<and> timers example_asked = [(60000, SessionTick)]
   \<and> requests example_asked = [AskRequest 0 (js ''Who is the suspect?'')]
   \<and> isTyping example_asked \<and> window_marked example_asked = None
   \<and> now example_asked = 6020"
  by (simp add: example_asked_def example_uploaded_state loop handlers strings)

lemma responses_index: "responses ! (rnd mod length responses) \<in> set responses"
proof -
  have "length responses = 4" by (simp add: responses_def)
  then have "rnd mod length responses < length responses" by simp
  then show ?thesis by (rule nth_mem)
qed

text \<open>
  C2 as amended. When the ask request fails, a reveal begins on the bubble of that
  submission with a canned string that owes nothing to the error: in script.js, for a
  network error or a body that is no JSON, the fixed string ``Error getting response''
  after a cross mark; in part_000, for a network error, a status outside 200-299 or a body
  that is no JSON, the one of four canned replies that \<^verbatim>\<open>Math.random\<close> picks. The reveal
  runs to its end, so the exchange ends with an assistant message that holds the
  rendering of that string, and \<open>isTyping\<close> is cleared.
\<close>

theorem ask_failure_reveals_canned_reply:
  assumes "r1 = NetworkError \<or> r1 = Response status Unparseable"
    and "request_failure r2"
    and "aiBubble < length (bubbles s)" and "ticksOn aiBubble s = []"
  shows "sendMessage_settled ScriptJs aiBubble r1 rnd s
           = typeText ScriptJs aiBubble ([0x274C] @ js '' Error getting response'') s
       \<and> sendMessage_settled Part000 aiBubble r2 rnd s
           = typeText Part000 aiBubble (responses ! (rnd mod length responses)) s
       \<and> responses ! (rnd mod length responses) \<in> set responses
       \<and> ticksOn aiBubble (typeText v aiBubble text s) = [TypeTick aiBubble text 0]
       \<and> bubbles (run_ticks v aiBubble (length text + 1) (typeText v aiBubble text s)) ! aiBubble
           = InnerHTML (renderMarkdown s text)
       \<and> \<not> isTyping (run_ticks v aiBubble (length text + 1) (typeText v aiBubble text s))"
proof -
  have a: "sendMessage_settled ScriptJs aiBubble r1 rnd s
           = typeText ScriptJs aiBubble ([0x274C] @ js '' Error getting response'') s"
    using assms(1) by (auto simp: sendMessage_settled_def sendMessage_catch_def)
  have b: "sendMessage_settled Part000 aiBubble r2 rnd s
           = typeText Part000 aiBubble (responses ! (rnd mod length responses)) s"
    using assms(2)
    by (cases r2) (auto simp: sendMessage_settled_def sendMessage_catch_def)
  have t0: "ticksOn aiBubble (typeText v aiBubble text s) = [TypeTick aiBubble text 0]"
    using assms(4) by (rule typeText_ticksOn)
  have c0: "aiBubble < length (bubbles (typeText v aiBubble text s))"
    using assms(3) by (simp add: typeText_fields)
  have "0 \<le> length text" by simp
  from run_ticks_complete [OF t0 this c0, of v]
  have c: "bubbles (run_ticks v aiBubble (length text + 1) (typeText v aiBubble text s)) ! aiBubble
             = InnerHTML (renderMarkdown s text)
           \<and> \<not> isTyping (run_ticks v aiBubble (length text + 1) (typeText v aiBubble text s))"
    by (simp add: renderMarkdown_cong [OF typeText_fields(3)])
  from a b c t0 responses_index show ?thesis by blast
qed

theorem ask_failure_reveals_canned_reply_witness:
  "(NetworkError = NetworkError \<or> NetworkError = Response 0 Unparseable)
   \<and> request_failure (Response 500 (JsonObject []))
   \<and> 0 < length (bubbles example_asked) \<and> ticksOn 0 example_asked = []
   \<and> sendMessage_settled ScriptJs 0 NetworkError 2 example_asked
       = typeText ScriptJs 0 ([0x274C] @ js '' Error getting response'') example_asked
   \<and> sendMessage_settled Part000 0 (Response 500 (JsonObject [])) 2 example_asked
       = typeText Part000 0 (responses ! 2) example_asked
   \<and> bubbles (run_ticks Part000 0 3 (typeText Part000 0 (js ''No'') example_asked)) ! 0
       = InnerHTML (js ''No'')
   \<and> \<not> isTyping (run_ticks Part000 0 3 (typeText Part000 0 (js ''No'') example_asked))"
proof -
  have h1: "NetworkError = NetworkError \<or> NetworkError = Response 0 Unparseable" by simp
  have h2: "request_failure (Response 500 (JsonObject []))" by (simp add: ok_def)
  have h3: "0 < length (bubbles example_asked)" by (simp add: example_asked_state)
  have h4: "ticksOn 0 example_asked = []" by (simp add: ticksOn_def example_asked_state)
  have len: "length (js ''No'') + 1 = 3" by (simp add: js_def)
  have rm: "renderMarkdown example_asked (js ''No'') = js ''No''"
    by (simp add: example_asked_state strings)
  have ix: "2 mod length responses = 2" by (simp add: responses_def)
  from ask_failure_reveals_canned_reply [OF h1 h2 h3 h4, of 2 Part000 "js ''No''"]
  show ?thesis unfolding len rm ix using h2 h3 h4 by blast
qed

text \<open>
  The claim C2 fails on both versions. In part_000 two failures of the same request
  that differ only in the draw of \<^verbatim>\<open>Math.random\<close> begin reveals of different strings, so
  the string is not fixed. In script.js status 500 with a JSON body is not treated as a
  failure: the reveal shows the text the server sent.
\<close>

theorem ask_failure_counterexample:
  "request_failure NetworkError
   \<and> timers (settle Part000 0 NetworkError 0 example_asked)
       = [(60000, SessionTick), (6040, TypeTick 0 (responses ! 0) 0)]
   \<and> timers (settle Part000 0 NetworkError 1 example_asked)
       = [(60000, SessionTick), (6040, TypeTick 0 (responses ! 1) 0)]
   \<and> responses ! 0 \<noteq> responses ! 1
   \<and> request_failure (Response 500 (JsonObject [(js ''answer'', js ''Internal Server Error'')]))
   \<and> timers (settle ScriptJs 0
         (Response 500 (JsonObject [(js ''answer'', js ''Internal Server Error'')])) 0 example_chat)
       = [(15, TypeTick 0 (js ''Internal Server Error'') 0)]"
proof -
  have "responses ! 0 \<noteq> responses ! 1" by (simp add: responses_def js_def)
  moreover have "timers (settle Part000 0 NetworkError 0 example_asked)
       = [(60000, SessionTick), (6040, TypeTick 0 (responses ! 0) 0)]"
    by (simp add: settle_def example_asked_state sendMessage_settled_def sendMessage_catch_def
          typeText_def setTimeout_def setInterval_def typingInterval_def delete_at_def responses_def)
  moreover have "timers (settle Part000 0 NetworkError 1 example_asked)
       = [(60000, SessionTick), (6040, TypeTick 0 (responses ! 1) 0)]"
    by (simp add: settle_def example_asked_state sendMessage_settled_def sendMessage_catch_def
          typeText_def setTimeout_def setInterval_def typingInterval_def delete_at_def responses_def)
  moreover have "timers (settle ScriptJs 0
         (Response 500 (JsonObject [(js ''answer'', js ''Internal Server Error'')])) 0 example_chat)
       = [(15, TypeTick 0 (js ''Internal Server Error'') 0)]"
    by (simp add: settle_def example_chat_state sendMessage_settled_def
          typeText_def setTimeout_def setInterval_def typingInterval_def delete_at_def or_default_def field_def
          js_def)
  ultimately show ?thesis by (simp add: ok_def)
qed

section \<open>Submissions that are turned away\<close>

text \<open>
  C4 as amended. \<open>sendMessage\<close> (send button, Enter key) with empty trimmed text or
  while a reveal is in progress leaves the whole state as it is. A quick prompt while the
  chat input is disabled appends one advisory system message and changes nothing else.
  A quick prompt while the chat input is enabled and a reveal is in progress, or whose
  text is blank, appends no message but writes the prompt into the input field.
\<close>

theorem rejected_submissions:
  assumes "trim (chatInput_value s1) = [] \<or> isTyping s1"
    and "chatInput_disabled s2"
    and "\<not> chatInput_disabled s3" and "trim prompt = [] \<or> isTyping s3"
  shows "sendMessage v s1 = s1
       \<and> chatMessages (sendQuickPrompt v prompt s2)
           = chatMessages (addSystemMessage (uploadFirstMessage v) s2)
       \<and> length (chatMessages (sendQuickPrompt v prompt s2)) = length (chatMessages s2) + 1
       \<and> (sendQuickPrompt v prompt s2)\<lparr>chatMessages := chatMessages s2\<rparr> = s2
       \<and> sendQuickPrompt v prompt s3 = s3\<lparr>chatInput_value := prompt\<rparr>"
  using assms
  by (auto simp: sendMessage_def sendQuickPrompt_def addSystemMessage_def Let_def)

theorem rejected_submissions_witness:
  "(trim (chatInput_value example_typing) = [] \<or> isTyping example_typing)
   \<and> chatInput_disabled (page_load ScriptJs example_html)
   \<and> \<not> chatInput_disabled example_typing
   \<and> (trim (js ''Summarize'') = [] \<or> isTyping example_typing)
   \<and> sendMessage ScriptJs example_typing = example_typing
   \<and> length (chatMessages
         (sendQuickPrompt ScriptJs (js ''Summarize'') (page_load ScriptJs example_html))) = 2
   \<and> sendQuickPrompt ScriptJs (js ''Summarize'') example_typing
       = example_typing\<lparr>chatInput_value := js ''Summarize''\<rparr>"
proof -
  have h1: "trim (chatInput_value example_typing) = [] \<or> isTyping example_typing"
    by (simp add: example_typing_state)
  have h2: "chatInput_disabled (page_load ScriptJs example_html)"
    by (simp add: examples handlers)
  have h3: "\<not> chatInput_disabled example_typing" by (simp add: example_typing_state)
  have h4: "trim (js ''Summarize'') = [] \<or> isTyping example_typing"
    by (simp add: example_typing_state)
  have l: "length (chatMessages (page_load ScriptJs example_html)) = 1"
    by (simp add: examples handlers)
  from rejected_submissions [OF h1 h2 h3 h4, of ScriptJs] l h1 h2 h3 h4
  show ?thesis by (simp add: addSystemMessage_def)
qed

text \<open>
  The claim C4 allows no change beyond one advisory message. script.js, with the chat
  enabled and a reveal in progress: a quick prompt appends nothing, and the input field,
  empty before, holds the prompt after.
\<close>

theorem quick_prompt_during_reveal_counterexample:
  "isTyping example_typing
   \<and> \<not> chatInput_disabled example_typing
   \<and> chatInput_value example_typing = []
   \<and> chatInput_value (sendQuickPrompt ScriptJs (js ''Summarize'') example_typing)
       = js ''Summarize''
   \<and> js ''Summarize'' \<noteq> []
   \<and> chatMessages (sendQuickPrompt ScriptJs (js ''Summarize'') example_typing)
       = chatMessages example_typing"
  by (simp add: example_typing_state sendQuickPrompt_def sendMessage_def js_def)

end
